theory Spec2Isabelle
  imports Main "HOL-Library.Word"
begin

unbundle bit_operations_syntax

section \<open>The legacy packet handler of the bladeRF NIOS II firmware (pkt_legacy.c)\<close>

type_synonym u8 = "8 word"
type_synonym u16 = "16 word"
type_synonym u32 = "32 word"
type_synonym u64 = "64 word"

subsection \<open>Packet format constants\<close>

definition UART_PKT_MODE_CNT_MASK :: u8 where
  "UART_PKT_MODE_CNT_MASK = 0x7"

definition UART_PKT_MODE_DEV_MASK :: u8 where
  "UART_PKT_MODE_DEV_MASK = 0x30"

definition UART_PKT_MODE_DEV_SHIFT :: nat where
  "UART_PKT_MODE_DEV_SHIFT = 4"

definition UART_PKT_DEV_CONFIG :: u8 where
  "UART_PKT_DEV_CONFIG = push_bit UART_PKT_MODE_DEV_SHIFT 0"

definition UART_PKT_DEV_LMS :: u8 where
  "UART_PKT_DEV_LMS = push_bit UART_PKT_MODE_DEV_SHIFT 1"

definition UART_PKT_DEV_SI5338 :: u8 where
  "UART_PKT_DEV_SI5338 = push_bit UART_PKT_MODE_DEV_SHIFT 3"

definition UART_PKT_MODE_DIR_SHIFT :: nat where
  "UART_PKT_MODE_DIR_SHIFT = 6"

definition UART_PKT_MODE_DIR_READ :: u8 where
  "UART_PKT_MODE_DIR_READ = push_bit UART_PKT_MODE_DIR_SHIFT 2"

definition UART_PKT_MODE_DIR_WRITE :: u8 where
  "UART_PKT_MODE_DIR_WRITE = push_bit UART_PKT_MODE_DIR_SHIFT 1"

definition PAYLOAD_IDX :: nat where
  "PAYLOAD_IDX = 2"

definition ADDR_IDX :: nat where
  "ADDR_IDX = PAYLOAD_IDX"

definition DATA_IDX :: nat where
  "DATA_IDX = ADDR_IDX + 1"

subsection \<open>Configuration parameters and their address ranges\<close>

datatype config_param =
    CONFIG_CONTROL_REG
  | CONFIG_IQ_CORR_RX_GAIN
  | CONFIG_IQ_CORR_RX_PHASE
  | CONFIG_IQ_CORR_TX_GAIN
  | CONFIG_IQ_CORR_TX_PHASE
  | CONFIG_FPGA_VERSION
  | CONFIG_RX_TIMESTAMP
  | CONFIG_TX_TIMESTAMP
  | CONFIG_VCTXCO
  | CONFIG_XB200_SYNTH
  | CONFIG_EXPANSION
  | CONFIG_EXPANSION_DIR
  | CONFIG_UNKNOWN

text \<open>The numeric value of an enumerator, used by the C code as an array index.\<close>

fun config_param_index :: "config_param \<Rightarrow> nat" where
  "config_param_index CONFIG_CONTROL_REG = 0"
| "config_param_index CONFIG_IQ_CORR_RX_GAIN = 1"
| "config_param_index CONFIG_IQ_CORR_RX_PHASE = 2"
| "config_param_index CONFIG_IQ_CORR_TX_GAIN = 3"
| "config_param_index CONFIG_IQ_CORR_TX_PHASE = 4"
| "config_param_index CONFIG_FPGA_VERSION = 5"
| "config_param_index CONFIG_RX_TIMESTAMP = 6"
| "config_param_index CONFIG_TX_TIMESTAMP = 7"
| "config_param_index CONFIG_VCTXCO = 8"
| "config_param_index CONFIG_XB200_SYNTH = 9"
| "config_param_index CONFIG_EXPANSION = 10"
| "config_param_index CONFIG_EXPANSION_DIR = 11"
| "config_param_index CONFIG_UNKNOWN = 12"

text \<open>The cast \<open>(enum config_param) i\<close> of \<open>lookup_param\<close>, for the indices of the table.\<close>

definition config_param_of_index :: "nat \<Rightarrow> config_param" where
  "config_param_of_index i =
     (if i = 0 then CONFIG_CONTROL_REG
      else if i = 1 then CONFIG_IQ_CORR_RX_GAIN
      else if i = 2 then CONFIG_IQ_CORR_RX_PHASE
      else if i = 3 then CONFIG_IQ_CORR_TX_GAIN
      else if i = 4 then CONFIG_IQ_CORR_TX_PHASE
      else if i = 5 then CONFIG_FPGA_VERSION
      else if i = 6 then CONFIG_RX_TIMESTAMP
      else if i = 7 then CONFIG_TX_TIMESTAMP
      else if i = 8 then CONFIG_VCTXCO
      else if i = 9 then CONFIG_XB200_SYNTH
      else if i = 10 then CONFIG_EXPANSION
      else if i = 11 then CONFIG_EXPANSION_DIR
      else CONFIG_UNKNOWN)"

record config_param_info =
  start :: u8
  len :: u8

text \<open>The lookup table, in the order of the enumerators (designated initialisers).\<close>

definition config_params :: "config_param_info list" where
  "config_params =
     [ \<lparr> start = 0,   len = 4 \<rparr>,
       \<lparr> start = 4,   len = 2 \<rparr>,
       \<lparr> start = 6,   len = 2 \<rparr>,
       \<lparr> start = 8,   len = 2 \<rparr>,
       \<lparr> start = 10,  len = 2 \<rparr>,
       \<lparr> start = 12,  len = 4 \<rparr>,
       \<lparr> start = 16,  len = 8 \<rparr>,
       \<lparr> start = 24,  len = 8 \<rparr>,
       \<lparr> start = 34,  len = 2 \<rparr>,
       \<lparr> start = 36,  len = 4 \<rparr>,
       \<lparr> start = 40,  len = 4 \<rparr>,
       \<lparr> start = 44,  len = 4 \<rparr>,
       \<lparr> start = 255, len = 0 \<rparr> ]"

text \<open>\<open>config_params[param]\<close>: the table entry of an enumerator.\<close>

definition param_info :: "config_param \<Rightarrow> config_param_info" where
  "param_info p = config_params ! config_param_index p"

text \<open>
  The loop of \<open>lookup_param\<close>, from index \<open>i\<close> on. The sum \<open>start + len\<close> is computed
  in \<open>int\<close> after the integer promotions, so it does not wrap at 256.
\<close>

function lookup_param_loop :: "nat \<Rightarrow> u8 \<Rightarrow> config_param" where
  "lookup_param_loop i addr =
     (if i < length config_params then
        (if start (config_params ! i) \<le> addr \<and>
            unat (start (config_params ! i)) + unat (len (config_params ! i)) > unat addr
         then config_param_of_index i
         else lookup_param_loop (i + 1) addr)
      else CONFIG_UNKNOWN)"
  by pat_completeness auto
termination
  by (relation "measure (\<lambda>(i, addr). length config_params - i)") auto

definition lookup_param :: "u8 \<Rightarrow> config_param" where
  "lookup_param addr = lookup_param_loop 0 addr"

text \<open>An address lies in the range \<open>[start, start + len)\<close> of a parameter's descriptor.\<close>

definition addr_in_range :: "config_param \<Rightarrow> u8 \<Rightarrow> bool" where
  "addr_in_range p addr \<longleftrightarrow>
     unat (start (param_info p)) \<le> unat addr \<and>
     unat addr < unat (start (param_info p)) + unat (len (param_info p))"


subsection \<open>The peripherals behind devices.h\<close>

datatype bladerf_module = BLADERF_MODULE_RX | BLADERF_MODULE_TX

text \<open>
  The device access functions are declared in devices.h, which is not part of the
  sources studied here. Each call the handler makes is recorded as an event; a write
  carries the argument as the handler passes it (after the cast written in the source;
  \<open>expansion_port_write\<close> and \<open>expansion_port_set_direction\<close> are passed the 64-bit
  payload without a cast).
\<close>

datatype periph_call =
    Control_reg_read
  | Iqbal_get_gain bladerf_module
  | Iqbal_get_phase bladerf_module
  | Fpga_version
  | Time_tamer_read bladerf_module
  | Expansion_port_read
  | Expansion_port_get_direction
  | Lms6_read u8
  | Si5338_read u8
  | Control_reg_write u32
  | Iqbal_set_gain bladerf_module u16
  | Iqbal_set_phase bladerf_module u16
  | Time_tamer_reset bladerf_module
  | Vctcxo_trim_dac_write u16
  | Adf4351_write u32
  | Expansion_port_write u64
  | Expansion_port_set_direction u64
  | Lms6_write u8 u8
  | Si5338_write u8 u8

fun is_write_call :: "periph_call \<Rightarrow> bool" where
  "is_write_call (Control_reg_write v) = True"
| "is_write_call (Iqbal_set_gain m v) = True"
| "is_write_call (Iqbal_set_phase m v) = True"
| "is_write_call (Time_tamer_reset m) = True"
| "is_write_call (Vctcxo_trim_dac_write v) = True"
| "is_write_call (Adf4351_write v) = True"
| "is_write_call (Expansion_port_write v) = True"
| "is_write_call (Expansion_port_set_direction v) = True"
| "is_write_call (Lms6_write a d) = True"
| "is_write_call (Si5338_write a d) = True"
| "is_write_call c = False"

text \<open>
  The hardware is a parameter of the model: a deterministic function from the calls made
  so far and the current call to the value that call returns, already converted to the
  64-bit type of \<open>payload\<close> (the 8-bit chip reads keep its low byte).
\<close>

type_synonym periph = "periph_call list \<Rightarrow> periph_call \<Rightarrow> u64"

subsection \<open>Program state\<close>

text \<open>
  The static variables \<open>n\<close>, \<open>payload\<close> and \<open>param\<close> of \<open>legacy_config_read\<close>
  (prefix \<open>rd_\<close>) and of \<open>legacy_config_write\<close> (prefix \<open>wr_\<close>), in their order of
  declaration, and the trace of peripheral calls made so far.
\<close>

record fw_state =
  rd_n :: u8
  rd_payload :: u64
  rd_param :: config_param
  wr_payload :: u64
  wr_n :: u8
  wr_param :: config_param
  trace :: "periph_call list"

text \<open>
  The state at firmware start: the initialisers of the statics; \<open>param\<close> of
  \<open>legacy_config_write\<close> has none and is zero-initialised, which is the first enumerator.
\<close>

definition fw_init :: fw_state where
  "fw_init = \<lparr> rd_n = 0, rd_payload = 0, rd_param = CONFIG_UNKNOWN,
               wr_payload = 0, wr_n = 0, wr_param = CONFIG_CONTROL_REG, trace = [] \<rparr>"

text \<open>\<open>struct pkt_buf\<close>: the request and the response bytes of one exchange.\<close>

record pkt_buf =
  req :: "u8 list"
  resp :: "u8 list"

text \<open>
  Modelled from the spec: pkt_handler.h, which declares \<open>struct pkt_buf\<close> and
  \<open>PKT_CFG_IDX\<close>, is not among the sources. The spec places the control byte at byte 0
  of the request; a frame holds the two header bytes and up to seven (address, data)
  tuples from \<open>PAYLOAD_IDX\<close> on, so both buffers have 16 bytes.
\<close>

definition PKT_CFG_IDX :: nat where
  "PKT_CFG_IDX = 0"

definition PKT_BUF_LEN :: nat where
  "PKT_BUF_LEN = 16"

definition pkt_buf_ok :: "pkt_buf \<Rightarrow> bool" where
  "pkt_buf_ok b \<longleftrightarrow> length (req b) = PKT_BUF_LEN \<and> length (resp b) = PKT_BUF_LEN"

subsection \<open>The read path\<close>

definition periph_read :: "periph \<Rightarrow> periph_call \<Rightarrow> periph_call list \<Rightarrow> u64 \<times> periph_call list" where
  "periph_read dev c tr = (dev tr c, tr @ [c])"

fun perform_config_read :: "periph \<Rightarrow> config_param \<Rightarrow> periph_call list \<Rightarrow> u64 \<times> periph_call list" where
  "perform_config_read dev CONFIG_CONTROL_REG tr = periph_read dev Control_reg_read tr"
| "perform_config_read dev CONFIG_IQ_CORR_RX_GAIN tr = periph_read dev (Iqbal_get_gain BLADERF_MODULE_RX) tr"
| "perform_config_read dev CONFIG_IQ_CORR_RX_PHASE tr = periph_read dev (Iqbal_get_phase BLADERF_MODULE_RX) tr"
| "perform_config_read dev CONFIG_IQ_CORR_TX_GAIN tr = periph_read dev (Iqbal_get_gain BLADERF_MODULE_TX) tr"
| "perform_config_read dev CONFIG_IQ_CORR_TX_PHASE tr = periph_read dev (Iqbal_get_phase BLADERF_MODULE_TX) tr"
| "perform_config_read dev CONFIG_FPGA_VERSION tr = periph_read dev Fpga_version tr"
| "perform_config_read dev CONFIG_RX_TIMESTAMP tr = periph_read dev (Time_tamer_read BLADERF_MODULE_RX) tr"
| "perform_config_read dev CONFIG_TX_TIMESTAMP tr = periph_read dev (Time_tamer_read BLADERF_MODULE_TX) tr"
| "perform_config_read dev CONFIG_VCTXCO tr = (0, tr)"
| "perform_config_read dev CONFIG_XB200_SYNTH tr = (0, tr)"
| "perform_config_read dev CONFIG_EXPANSION tr = periph_read dev Expansion_port_read tr"
| "perform_config_read dev CONFIG_EXPANSION_DIR tr = periph_read dev Expansion_port_get_direction tr"
| "perform_config_read dev CONFIG_UNKNOWN tr = (- 1, tr)"

text \<open>
  The loop of \<open>legacy_config_read\<close> from iteration \<open>i\<close> on. The pointers \<open>req_data\<close>
  and \<open>resp_data\<close> both start at \<open>PAYLOAD_IDX\<close> and advance by two in each iteration,
  so in iteration \<open>i\<close> they point at index \<open>PAYLOAD_IDX + 2 * i\<close>. The address
  difference is stored into a byte, hence taken modulo 256. The shift of the 64-bit
  payload is \<open>drop_bit\<close>; the count \<open>n * 8\<close> stays below 64 in every reachable state.
\<close>

function legacy_config_read_loop ::
  "periph \<Rightarrow> nat \<Rightarrow> nat \<Rightarrow> fw_state \<Rightarrow> pkt_buf \<Rightarrow> fw_state \<times> pkt_buf" where
  "legacy_config_read_loop dev i count s b =
     (if i < count then
        (let s1 = (if rd_n s = 0 then
                     (let p = lookup_param (req b ! PAYLOAD_IDX);
                          (v, tr) = perform_config_read dev p (trace s)
                      in s\<lparr> rd_param := p, rd_payload := v, trace := tr \<rparr>)
                   else s);
             b1 = b\<lparr> resp := (resp b)[PAYLOAD_IDX + 2 * i :=
                         req b ! (PAYLOAD_IDX + 2 * i) - start (param_info (rd_param s1))] \<rparr>;
             b2 = b1\<lparr> resp := (resp b1)[PAYLOAD_IDX + 2 * i + 1 :=
                         ucast (drop_bit (unat (rd_n s1) * 8) (rd_payload s1))] \<rparr>;
             s2 = s1\<lparr> rd_n := rd_n s1 + 1 \<rparr>
         in if rd_n s2 \<ge> len (param_info (rd_param s2))
            then (s2\<lparr> rd_param := CONFIG_UNKNOWN, rd_n := 0, rd_payload := 0 \<rparr>, b2)
            else legacy_config_read_loop dev (i + 1) count s2 b2)
      else (s, b))"
  by pat_completeness auto
termination
  by (relation "measure (\<lambda>(dev, i, count, s, b). count - i)") auto

definition legacy_config_read :: "periph \<Rightarrow> u8 \<Rightarrow> fw_state \<Rightarrow> pkt_buf \<Rightarrow> fw_state \<times> pkt_buf" where
  "legacy_config_read dev count s b = legacy_config_read_loop dev 0 (unat count) s b"

definition legacy_pkt_read :: "periph \<Rightarrow> u8 \<Rightarrow> u8 \<Rightarrow> fw_state \<Rightarrow> pkt_buf \<Rightarrow> fw_state \<times> pkt_buf" where
  "legacy_pkt_read dev dev_id count s b =
     (if dev_id = UART_PKT_DEV_LMS then
        (let b1 = b\<lparr> resp := (resp b)[ADDR_IDX := req b ! ADDR_IDX] \<rparr>;
             (v, tr) = periph_read dev (Lms6_read (req b1 ! ADDR_IDX)) (trace s)
         in (s\<lparr> trace := tr \<rparr>, b1\<lparr> resp := (resp b1)[DATA_IDX := ucast v] \<rparr>))
      else if dev_id = UART_PKT_DEV_SI5338 then
        (let b1 = b\<lparr> resp := (resp b)[ADDR_IDX := req b ! ADDR_IDX] \<rparr>;
             (v, tr) = periph_read dev (Si5338_read (req b1 ! ADDR_IDX)) (trace s)
         in (s\<lparr> trace := tr \<rparr>, b1\<lparr> resp := (resp b1)[DATA_IDX := ucast v] \<rparr>))
      else if dev_id = UART_PKT_DEV_CONFIG then legacy_config_read dev count s b
      else (s, b))"

subsection \<open>The write path\<close>

fun perform_config_write :: "config_param \<Rightarrow> u64 \<Rightarrow> periph_call list \<Rightarrow> periph_call list" where
  "perform_config_write CONFIG_CONTROL_REG payload tr = tr @ [Control_reg_write (ucast payload)]"
| "perform_config_write CONFIG_IQ_CORR_RX_GAIN payload tr = tr @ [Iqbal_set_gain BLADERF_MODULE_RX (ucast payload)]"
| "perform_config_write CONFIG_IQ_CORR_RX_PHASE payload tr = tr @ [Iqbal_set_phase BLADERF_MODULE_RX (ucast payload)]"
| "perform_config_write CONFIG_IQ_CORR_TX_GAIN payload tr = tr @ [Iqbal_set_gain BLADERF_MODULE_TX (ucast payload)]"
| "perform_config_write CONFIG_IQ_CORR_TX_PHASE payload tr = tr @ [Iqbal_set_phase BLADERF_MODULE_TX (ucast payload)]"
| "perform_config_write CONFIG_FPGA_VERSION payload tr = tr"
| "perform_config_write CONFIG_RX_TIMESTAMP payload tr = tr @ [Time_tamer_reset BLADERF_MODULE_RX]"
| "perform_config_write CONFIG_TX_TIMESTAMP payload tr = tr @ [Time_tamer_reset BLADERF_MODULE_TX]"
| "perform_config_write CONFIG_VCTXCO payload tr = tr @ [Vctcxo_trim_dac_write (ucast payload)]"
| "perform_config_write CONFIG_XB200_SYNTH payload tr = tr @ [Adf4351_write (ucast payload)]"
| "perform_config_write CONFIG_EXPANSION payload tr = tr @ [Expansion_port_write payload]"
| "perform_config_write CONFIG_EXPANSION_DIR payload tr = tr @ [Expansion_port_set_direction payload]"
| "perform_config_write CONFIG_UNKNOWN payload tr = tr"

text \<open>
  The expression \<open>(*req_data) << (n * 8)\<close>. Its left operand is a \<open>uint8_t\<close>, which
  the integer promotions turn into an \<open>int\<close>, 32 bits wide on the NIOS II, so the shift
  is a 32-bit one. For a count below 32 its result is taken modulo \<open>2 ^ 32\<close>. For a
  count of 32 or more (byte indices 4 to 7) the C standard leaves the result undefined:
  what the compiled code yields there is a parameter of the model, a function of the
  operand and the count. Whatever it is, it is an \<open>int\<close>, and is converted to the
  64-bit type of \<open>payload\<close> by sign extension before the bitwise or.
\<close>

type_synonym wide_shift = "u32 \<Rightarrow> nat \<Rightarrow> u32"

definition int_shl :: "wide_shift \<Rightarrow> u32 \<Rightarrow> nat \<Rightarrow> u32" where
  "int_shl ws x c = (if c < 32 then push_bit c x else ws x c)"

definition shifted_data :: "wide_shift \<Rightarrow> u8 \<Rightarrow> u8 \<Rightarrow> u64" where
  "shifted_data ws d n = scast (int_shl ws (ucast d) (unat n * 8))"

text \<open>
  The loop of \<open>legacy_config_write\<close> from iteration \<open>i\<close> on; the indices are those of
  the read loop, and the data byte of tuple \<open>i\<close> is at \<open>PAYLOAD_IDX + 2 * i + 1\<close>.
\<close>

function legacy_config_write_loop ::
  "wide_shift \<Rightarrow> nat \<Rightarrow> nat \<Rightarrow> fw_state \<Rightarrow> pkt_buf \<Rightarrow> fw_state \<times> pkt_buf" where
  "legacy_config_write_loop ws i count s b =
     (if i < count \<and> wr_n s < len (param_info (wr_param s)) then
        (let b1 = b\<lparr> resp := (resp b)[PAYLOAD_IDX + 2 * i :=
                         req b ! (PAYLOAD_IDX + 2 * i) - start (param_info (wr_param s))] \<rparr>;
             b2 = b1\<lparr> resp := (resp b1)[PAYLOAD_IDX + 2 * i + 1 := 0] \<rparr>;
             s1 = s\<lparr> wr_payload := wr_payload s OR
                         shifted_data ws (req b2 ! (PAYLOAD_IDX + 2 * i + 1)) (wr_n s) \<rparr>;
             s2 = s1\<lparr> wr_n := wr_n s1 + 1 \<rparr>
         in legacy_config_write_loop ws (i + 1) count s2 b2)
      else (s, b))"
  by pat_completeness auto
termination
  by (relation "measure (\<lambda>(ws, i, count, s, b). count - i)") auto

definition legacy_config_write ::
  "wide_shift \<Rightarrow> u8 \<Rightarrow> fw_state \<Rightarrow> pkt_buf \<Rightarrow> fw_state \<times> pkt_buf" where
  "legacy_config_write ws count s b =
     (let s0 = (if wr_n s = 0 then s\<lparr> wr_param := lookup_param (req b ! PAYLOAD_IDX) \<rparr> else s);
          (s1, b1) = legacy_config_write_loop ws 0 (unat count) s0 b
      in if wr_n s1 \<ge> len (param_info (wr_param s1))
         then (s1\<lparr> trace := perform_config_write (wr_param s1) (wr_payload s1) (trace s1),
                   wr_payload := 0, wr_n := 0 \<rparr>, b1)
         else (s1, b1))"

definition legacy_pkt_write ::
  "wide_shift \<Rightarrow> u8 \<Rightarrow> u8 \<Rightarrow> fw_state \<Rightarrow> pkt_buf \<Rightarrow> fw_state \<times> pkt_buf" where
  "legacy_pkt_write ws dev_id count s b =
     (if dev_id = UART_PKT_DEV_LMS then
        (let s1 = s\<lparr> trace := trace s @ [Lms6_write (req b ! ADDR_IDX) (req b ! DATA_IDX)] \<rparr>;
             b1 = b\<lparr> resp := (resp b)[ADDR_IDX := req b ! ADDR_IDX] \<rparr>
         in (s1, b1\<lparr> resp := (resp b1)[DATA_IDX := 0] \<rparr>))
      else if dev_id = UART_PKT_DEV_SI5338 then
        (let s1 = s\<lparr> trace := trace s @ [Si5338_write (req b ! ADDR_IDX) (req b ! DATA_IDX)] \<rparr>;
             b1 = b\<lparr> resp := (resp b)[ADDR_IDX := req b ! ADDR_IDX] \<rparr>
         in (s1, b1\<lparr> resp := (resp b1)[DATA_IDX := 0] \<rparr>))
      else if dev_id = UART_PKT_DEV_CONFIG then legacy_config_write ws count s b
      else (s, b))"

subsection \<open>The dispatcher\<close>

text \<open>
  \<open>pkt_legacy\<close>, for a given behaviour \<open>ws\<close> of the wide shifts and given
  peripherals \<open>dev\<close>.
\<close>

definition pkt_legacy ::
  "wide_shift \<Rightarrow> periph \<Rightarrow> fw_state \<Rightarrow> pkt_buf \<Rightarrow> fw_state \<times> pkt_buf" where
  "pkt_legacy ws dev s b =
     (let cfg = req b ! PKT_CFG_IDX;
          is_read = (cfg AND UART_PKT_MODE_DIR_READ \<noteq> 0);
          is_write = (cfg AND UART_PKT_MODE_DIR_WRITE \<noteq> 0);
          dev_id = cfg AND UART_PKT_MODE_DEV_MASK;
          count = cfg AND UART_PKT_MODE_CNT_MASK
      in if is_read then legacy_pkt_read dev dev_id count s b
         else if is_write then legacy_pkt_write ws dev_id count s b
         else (s, b))"

text \<open>
  A run of the firmware: the frames are handled one after the other, each with the
  response buffer its caller prepared; the state after the last one is returned.
\<close>

fun run_frames :: "wide_shift \<Rightarrow> periph \<Rightarrow> fw_state \<Rightarrow> pkt_buf list \<Rightarrow> fw_state" where
  "run_frames ws dev s [] = s"
| "run_frames ws dev s (b # bs) = run_frames ws dev (fst (pkt_legacy ws dev s b)) bs"

subsection \<open>Transfer states\<close>

text \<open>
  The state of a config path between two frames: idle, or inside the transfer of one
  parameter, with at least one and fewer than \<open>len\<close> of its bytes consumed.
\<close>

definition rd_state_ok :: "fw_state \<Rightarrow> bool" where
  "rd_state_ok s \<longleftrightarrow>
     (rd_n s = 0 \<and> rd_param s = CONFIG_UNKNOWN \<and> rd_payload s = 0) \<or>
     (0 < unat (rd_n s) \<and> unat (rd_n s) < unat (len (param_info (rd_param s))))"

definition wr_state_ok :: "fw_state \<Rightarrow> bool" where
  "wr_state_ok s \<longleftrightarrow>
     (wr_n s = 0 \<and> wr_payload s = 0) \<or>
     (0 < unat (wr_n s) \<and> unat (wr_n s) < unat (len (param_info (wr_param s))))"

subsection \<open>Sample parameters\<close>

text \<open>
  A wide shift that uses the low five bits of the count, as the shift instruction of
  the NIOS II does.
\<close>

definition shift_mod32 :: wide_shift where
  "shift_mod32 x c = push_bit (c mod 32) x"

text \<open>A peripheral whose every read returns the same value, for concrete runs.\<close>

definition fixed_periph :: "u64 \<Rightarrow> periph" where
  "fixed_periph v tr c = v"

text \<open>A response buffer as a caller may have prepared it, every byte \<open>0xEE\<close>.\<close>

definition sample_resp :: "u8 list" where
  "sample_resp = [0xEE, 0xEE, 0xEE, 0xEE, 0xEE, 0xEE, 0xEE, 0xEE,
                  0xEE, 0xEE, 0xEE, 0xEE, 0xEE, 0xEE, 0xEE, 0xEE]"

section \<open>Properties\<close>

subsection \<open>The address map\<close>

lemma length_config_params: "length config_params = 13"
  by (simp add: config_params_def)

lemma param_info_simps:
  "param_info CONFIG_CONTROL_REG = \<lparr> start = 0, len = 4 \<rparr>"
  "param_info CONFIG_IQ_CORR_RX_GAIN = \<lparr> start = 4, len = 2 \<rparr>"
  "param_info CONFIG_IQ_CORR_RX_PHASE = \<lparr> start = 6, len = 2 \<rparr>"
  "param_info CONFIG_IQ_CORR_TX_GAIN = \<lparr> start = 8, len = 2 \<rparr>"
  "param_info CONFIG_IQ_CORR_TX_PHASE = \<lparr> start = 10, len = 2 \<rparr>"
  "param_info CONFIG_FPGA_VERSION = \<lparr> start = 12, len = 4 \<rparr>"
  "param_info CONFIG_RX_TIMESTAMP = \<lparr> start = 16, len = 8 \<rparr>"
  "param_info CONFIG_TX_TIMESTAMP = \<lparr> start = 24, len = 8 \<rparr>"
  "param_info CONFIG_VCTXCO = \<lparr> start = 34, len = 2 \<rparr>"
  "param_info CONFIG_XB200_SYNTH = \<lparr> start = 36, len = 4 \<rparr>"
  "param_info CONFIG_EXPANSION = \<lparr> start = 40, len = 4 \<rparr>"
  "param_info CONFIG_EXPANSION_DIR = \<lparr> start = 44, len = 4 \<rparr>"
  "param_info CONFIG_UNKNOWN = \<lparr> start = 255, len = 0 \<rparr>"
  by (simp_all add: param_info_def config_params_def)

text \<open>The thirteen iterations of the lookup loop, unrolled.\<close>

lemma lookup_param_unfold:
  "lookup_param a =
     (if unat a < 4 then CONFIG_CONTROL_REG
      else if unat a < 6 then CONFIG_IQ_CORR_RX_GAIN
      else if unat a < 8 then CONFIG_IQ_CORR_RX_PHASE
      else if unat a < 10 then CONFIG_IQ_CORR_TX_GAIN
      else if unat a < 12 then CONFIG_IQ_CORR_TX_PHASE
      else if unat a < 16 then CONFIG_FPGA_VERSION
      else if unat a < 24 then CONFIG_RX_TIMESTAMP
      else if unat a < 32 then CONFIG_TX_TIMESTAMP
      else if 34 \<le> unat a \<and> unat a < 36 then CONFIG_VCTXCO
      else if 36 \<le> unat a \<and> unat a < 40 then CONFIG_XB200_SYNTH
      else if 40 \<le> unat a \<and> unat a < 44 then CONFIG_EXPANSION
      else if 44 \<le> unat a \<and> unat a < 48 then CONFIG_EXPANSION_DIR
      else CONFIG_UNKNOWN)"
  unfolding lookup_param_def
  apply (simp add: length_config_params config_params_def config_param_of_index_def word_le_nat_alt)
  done


text \<open>
  C1. \<open>lookup_param\<close> is a total function of the 8-bit address (its loop terminates,
  as the termination proof of \<open>lookup_param_loop\<close> shows). When some descriptor's range
  \<open>[start, start + len)\<close> contains the address, the result is such a descriptor and no
  descriptor earlier in the table contains the address; when no range contains the
  address, the result is \<open>CONFIG_UNKNOWN\<close>, whose length is zero.
\<close>

theorem lookup_param_first_match:
  "(addr_in_range p a \<longrightarrow>
      addr_in_range (lookup_param a) a \<and>
      config_param_index (lookup_param a) \<le> config_param_index p)
   \<and> ((\<forall>q. \<not> addr_in_range q a) \<longrightarrow> lookup_param a = CONFIG_UNKNOWN)
   \<and> len (param_info CONFIG_UNKNOWN) = 0"
proof (intro conjI impI)
  assume "addr_in_range p a"
  then show "addr_in_range (lookup_param a) a"
    by (cases p) (simp_all add: addr_in_range_def param_info_simps lookup_param_unfold)
next
  assume "addr_in_range p a"
  then show "config_param_index (lookup_param a) \<le> config_param_index p"
    by (cases p) (simp_all add: addr_in_range_def param_info_simps lookup_param_unfold)
next
  assume none: "\<forall>q. \<not> addr_in_range q a"
  have "\<not> addr_in_range CONFIG_CONTROL_REG a" "\<not> addr_in_range CONFIG_IQ_CORR_RX_GAIN a"
    "\<not> addr_in_range CONFIG_IQ_CORR_RX_PHASE a" "\<not> addr_in_range CONFIG_IQ_CORR_TX_GAIN a"
    "\<not> addr_in_range CONFIG_IQ_CORR_TX_PHASE a" "\<not> addr_in_range CONFIG_FPGA_VERSION a"
    "\<not> addr_in_range CONFIG_RX_TIMESTAMP a" "\<not> addr_in_range CONFIG_TX_TIMESTAMP a"
    "\<not> addr_in_range CONFIG_VCTXCO a" "\<not> addr_in_range CONFIG_XB200_SYNTH a"
    "\<not> addr_in_range CONFIG_EXPANSION a" "\<not> addr_in_range CONFIG_EXPANSION_DIR a"
    using none by blast+
  then show "lookup_param a = CONFIG_UNKNOWN"
    by (simp add: addr_in_range_def param_info_simps lookup_param_unfold)
next
  show "len (param_info CONFIG_UNKNOWN) = 0"
    by (simp add: param_info_simps)
qed

text \<open>Address 17 lies in the RX timestamp's range; address 33 lies in no range.\<close>

theorem lookup_param_first_match_witness:
  "addr_in_range CONFIG_RX_TIMESTAMP 17 \<and> lookup_param 17 = CONFIG_RX_TIMESTAMP \<and>
   (\<forall>q. \<not> addr_in_range q 33) \<and> lookup_param 33 = CONFIG_UNKNOWN"
proof -
  have in17: "addr_in_range CONFIG_RX_TIMESTAMP 17"
    by (simp add: addr_in_range_def param_info_simps)
  have out33: "\<forall>q. \<not> addr_in_range q 33"
  proof
    fix q show "\<not> addr_in_range q 33"
      by (cases q) (simp_all add: addr_in_range_def param_info_simps)
  qed
  have "config_param_index (lookup_param 17) \<le> config_param_index CONFIG_RX_TIMESTAMP"
    and "addr_in_range (lookup_param 17) 17"
    using lookup_param_first_match [of CONFIG_RX_TIMESTAMP 17] in17 by simp_all
  then have "lookup_param 17 = CONFIG_RX_TIMESTAMP"
    by (cases "lookup_param 17") (simp_all add: addr_in_range_def param_info_simps)
  moreover have "lookup_param 33 = CONFIG_UNKNOWN"
    using lookup_param_first_match [of CONFIG_UNKNOWN 33] out33 by simp
  ultimately show ?thesis using in17 out33 by simp
qed

text \<open>
  The descriptor after the TX timestamp (addresses 24 to 31) is the VCTCXO trim DAC,
  which starts at 34, not at 32: the ranges are not contiguous.
\<close>

theorem config_params_gap_counterexample:
  "unat (start (param_info CONFIG_VCTXCO)) \<noteq>
     unat (start (param_info CONFIG_TX_TIMESTAMP)) + unat (len (param_info CONFIG_TX_TIMESTAMP))
   \<and> config_param_index CONFIG_VCTXCO = config_param_index CONFIG_TX_TIMESTAMP + 1"
  by (simp add: param_info_simps)

lemma below_12_cases:
  "i < (12::nat) \<Longrightarrow> i = 0 \<or> i = 1 \<or> i = 2 \<or> i = 3 \<or> i = 4 \<or> i = 5 \<or> i = 6 \<or> i = 7 \<or> i = 8 \<or> i = 9 \<or> i = 10 \<or> i = 11"
  by arith

text \<open>
  C3, amended. Leaving out the last entry (\<open>CONFIG_UNKNOWN\<close>), the table is ordered by
  strictly ascending start and its ranges do not overlap: an earlier descriptor ends at
  or before the start of every later one. Each descriptor starts where its predecessor
  ends, except the one after the TX timestamp, which starts two addresses later
  (addresses 32 and 33 belong to no descriptor).
\<close>

theorem config_params_layout:
  "(i < j \<and> j < length config_params - 1 \<longrightarrow>
      unat (start (config_params ! i)) < unat (start (config_params ! j)) \<and>
      unat (start (config_params ! i)) + unat (len (config_params ! i)) \<le> unat (start (config_params ! j)))
   \<and> (i + 1 < length config_params - 1 \<and> i \<noteq> config_param_index CONFIG_TX_TIMESTAMP \<longrightarrow>
      unat (start (config_params ! (i + 1))) =
        unat (start (config_params ! i)) + unat (len (config_params ! i)))
   \<and> unat (start (param_info CONFIG_VCTXCO)) =
        unat (start (param_info CONFIG_TX_TIMESTAMP)) + unat (len (param_info CONFIG_TX_TIMESTAMP)) + 2"
proof (intro conjI impI)
  assume a: "i < j \<and> j < length config_params - 1"
  then have "j < 12" "i < 12" by (simp_all add: length_config_params)
  from below_12_cases [OF this(1)] below_12_cases [OF this(2)] a
  show "unat (start (config_params ! i)) < unat (start (config_params ! j))"
    by (elim disjE) (simp_all add: config_params_def)
  from below_12_cases [OF \<open>j < 12\<close>] below_12_cases [OF \<open>i < 12\<close>] a
  show "unat (start (config_params ! i)) + unat (len (config_params ! i)) \<le> unat (start (config_params ! j))"
    by (elim disjE) (simp_all add: config_params_def)
next
  assume a: "i + 1 < length config_params - 1 \<and> i \<noteq> config_param_index CONFIG_TX_TIMESTAMP"
  then have "i < 12" by (simp add: length_config_params)
  from below_12_cases [OF this] a
  show "unat (start (config_params ! (i + 1))) =
        unat (start (config_params ! i)) + unat (len (config_params ! i))"
    by (elim disjE) (simp_all add: config_params_def length_config_params)
next
  show "unat (start (param_info CONFIG_VCTXCO)) =
        unat (start (param_info CONFIG_TX_TIMESTAMP)) + unat (len (param_info CONFIG_TX_TIMESTAMP)) + 2"
    by (simp add: param_info_simps)
qed

text \<open>The pairs of entries (6, 8) and (8, 9).\<close>

theorem config_params_layout_witness:
  "unat (start (config_params ! 6)) + unat (len (config_params ! 6)) \<le> unat (start (config_params ! 8))
   \<and> unat (start (config_params ! 9)) = unat (start (config_params ! 8)) + unat (len (config_params ! 8))"
  using config_params_layout [of 6 8] config_params_layout [of 8 9]
  by (simp add: length_config_params)

subsection \<open>Facts about the read loop\<close>

declare legacy_config_read_loop.simps [simp del]
declare legacy_config_write_loop.simps [simp del]

lemma uart_consts:
  "UART_PKT_DEV_CONFIG = 0" "UART_PKT_DEV_LMS = 0x10" "UART_PKT_DEV_SI5338 = 0x30"
  "UART_PKT_MODE_DIR_READ = 0x80" "UART_PKT_MODE_DIR_WRITE = 0x40"
  by (simp_all add: UART_PKT_DEV_CONFIG_def UART_PKT_DEV_LMS_def UART_PKT_DEV_SI5338_def
      UART_PKT_MODE_DIR_READ_def UART_PKT_MODE_DIR_WRITE_def UART_PKT_MODE_DEV_SHIFT_def
      UART_PKT_MODE_DIR_SHIFT_def)

lemma u8_succ_unat: "unat (x :: u8) < unat (y :: u8) \<Longrightarrow> unat (x + 1) = unat x + 1"
proof -
  assume "unat x < unat y"
  moreover have "unat y < 256" using unsigned_less [of y] by simp
  ultimately show ?thesis by (simp add: unat_word_ariths)
qed

lemma read_loop_stop: "count \<le> i \<Longrightarrow> legacy_config_read_loop dev i count s b = (s, b)"
  by (simp add: legacy_config_read_loop.simps)

lemma read_loop_active_step:
  assumes "i < count" "0 < unat (rd_n s)" "unat (rd_n s) < unat (len (param_info (rd_param s)))"
  shows "legacy_config_read_loop dev i count s b =
     (let b2 = b\<lparr> resp := (resp b)[PAYLOAD_IDX + 2 * i :=
                     req b ! (PAYLOAD_IDX + 2 * i) - start (param_info (rd_param s)),
                   PAYLOAD_IDX + 2 * i + 1 := ucast (drop_bit (unat (rd_n s) * 8) (rd_payload s))] \<rparr>
      in if unat (rd_n s) + 1 = unat (len (param_info (rd_param s)))
         then (s\<lparr> rd_param := CONFIG_UNKNOWN, rd_n := 0, rd_payload := 0 \<rparr>, b2)
         else legacy_config_read_loop dev (i + 1) count (s\<lparr> rd_n := rd_n s + 1 \<rparr>) b2)"
proof -
  have nz: "rd_n s \<noteq> 0" using assms(2) by (simp add: unat_gt_0)
  have su: "unat (rd_n s + 1) = unat (rd_n s) + 1" using assms(3) by (rule u8_succ_unat)
  show ?thesis
    using assms nz su
    by (subst legacy_config_read_loop.simps) (auto simp add: Let_def word_le_nat_alt)
qed

lemma read_loop_active_state:
  "0 < unat (rd_n s) \<Longrightarrow> unat (rd_n s) < unat (len (param_info (rd_param s))) \<Longrightarrow> k = count - i \<Longrightarrow>
   fst (legacy_config_read_loop dev i count s b) =
     (if unat (len (param_info (rd_param s))) - unat (rd_n s) \<le> count - i
      then s\<lparr> rd_param := CONFIG_UNKNOWN, rd_n := 0, rd_payload := 0 \<rparr>
      else s\<lparr> rd_n := rd_n s + of_nat (count - i) \<rparr>)"
proof (induction k arbitrary: i s b)
  case 0
  then show ?case by (simp add: read_loop_stop)
next
  case (Suc k)
  then have lt: "i < count" and k: "k = count - (i + 1)" by simp_all
  have su: "unat (rd_n s + 1) = unat (rd_n s) + 1" using Suc.prems(2) by (rule u8_succ_unat)
  note step = read_loop_active_step [OF lt Suc.prems(1,2), of dev b]
  show ?case
  proof (cases "unat (rd_n s) + 1 = unat (len (param_info (rd_param s)))")
    case True
    then show ?thesis using lt Suc.prems
      by (simp add: step Let_def)
  next
    case False
    let ?s2 = "s\<lparr> rd_n := rd_n s + 1 \<rparr>"
    have a: "0 < unat (rd_n ?s2)"
      and b: "unat (rd_n ?s2) < unat (len (param_info (rd_param ?s2)))"
      using False Suc.prems su by simp_all
    have c: "count - i = Suc (count - (i + 1))" using lt by simp
    have "fst (legacy_config_read_loop dev i count s b) =
          fst (legacy_config_read_loop dev (i + 1) count ?s2
            (b\<lparr> resp := (resp b)[PAYLOAD_IDX + 2 * i :=
                     req b ! (PAYLOAD_IDX + 2 * i) - start (param_info (rd_param s)),
                   PAYLOAD_IDX + 2 * i + 1 := ucast (drop_bit (unat (rd_n s) * 8) (rd_payload s))] \<rparr>))"
      using False by (simp add: step Let_def)
    also have "\<dots> = (if unat (len (param_info (rd_param ?s2))) - unat (rd_n ?s2) \<le> count - (i + 1)
      then ?s2\<lparr> rd_param := CONFIG_UNKNOWN, rd_n := 0, rd_payload := 0 \<rparr>
      else ?s2\<lparr> rd_n := rd_n ?s2 + of_nat (count - (i + 1)) \<rparr>)"
      by (rule Suc.IH [OF a b k])
    also have "\<dots> = (if unat (len (param_info (rd_param s))) - unat (rd_n s) \<le> count - i
      then s\<lparr> rd_param := CONFIG_UNKNOWN, rd_n := 0, rd_payload := 0 \<rparr>
      else s\<lparr> rd_n := rd_n s + of_nat (count - i) \<rparr>)"
      using su Suc.prems(2) by (auto simp add: c simp del: of_nat_diff)
    finally show ?thesis .
  qed
qed

lemma read_loop_req: "req (snd (legacy_config_read_loop dev i count s b)) = req b"
proof (induction dev i count s b rule: legacy_config_read_loop.induct)
  case (1 dev i count s b)
  show ?case
    apply (subst legacy_config_read_loop.simps)
    using "1.IH"
    apply (auto simp add: Let_def split: prod.splits)
    done
qed

lemma read_loop_length: "length (resp (snd (legacy_config_read_loop dev i count s b))) = length (resp b)"
proof (induction dev i count s b rule: legacy_config_read_loop.induct)
  case (1 dev i count s b)
  show ?case
    apply (subst legacy_config_read_loop.simps)
    using "1.IH"
    apply (auto simp add: Let_def split: prod.splits)
    done
qed

lemma read_loop_write_state:
  "wr_n (fst (legacy_config_read_loop dev i count s b)) = wr_n s \<and>
   wr_payload (fst (legacy_config_read_loop dev i count s b)) = wr_payload s \<and>
   wr_param (fst (legacy_config_read_loop dev i count s b)) = wr_param s"
proof (induction dev i count s b rule: legacy_config_read_loop.induct)
  case (1 dev i count s b)
  show ?case
    apply (subst (1 2 3) legacy_config_read_loop.simps)
    using "1.IH"
    apply (auto simp add: Let_def split: prod.splits)
    done
qed

lemma read_loop_before:
  "j < PAYLOAD_IDX + 2 * i \<Longrightarrow>
   resp (snd (legacy_config_read_loop dev i count s b)) ! j = resp b ! j"
proof (induction dev i count s b rule: legacy_config_read_loop.induct)
  case (1 dev i count s b)
  show ?case
    apply (subst legacy_config_read_loop.simps)
    using "1.IH" "1.prems"
    apply (auto simp add: Let_def split: prod.splits)
    done
qed

lemma perform_config_read_no_write:
  "filter is_write_call (snd (perform_config_read dev p tr)) = filter is_write_call tr"
  by (cases p) (simp_all add: periph_read_def)

lemma read_loop_no_write:
  "filter is_write_call (trace (fst (legacy_config_read_loop dev i count s b))) =
   filter is_write_call (trace s)"
proof (induction dev i count s b rule: legacy_config_read_loop.induct)
  case (1 dev i count s b)
  show ?case
    apply (subst legacy_config_read_loop.simps)
    using "1.IH" perform_config_read_no_write [of dev "lookup_param (req b ! PAYLOAD_IDX)" "trace s"]
    apply (auto simp add: Let_def split: prod.splits)
    done
qed

lemma min_tuples_step:
  "i < count \<Longrightarrow> n + 1 < L \<Longrightarrow>
   i + 1 + min (count - (i + 1)) (L - (n + 1)) = i + min (count - i) (L - (n::nat))"
  by arith

lemma min_tuples_pos:
  "i < count \<Longrightarrow> n < L \<Longrightarrow> i + 1 \<le> i + min (count - i) (L - (n::nat))"
  by arith

lemma min_tuples_Suc:
  "Suc t < min (count - i) (L - (n::nat)) \<Longrightarrow> t < min (count - (i + 1)) (L - (n + 1)) \<and> n + 1 < L"
  by arith

lemma read_loop_active_after:
  "0 < unat (rd_n s) \<Longrightarrow> unat (rd_n s) < unat (len (param_info (rd_param s))) \<Longrightarrow> k = count - i \<Longrightarrow>
   PAYLOAD_IDX + 2 * (i + min (count - i) (unat (len (param_info (rd_param s))) - unat (rd_n s))) \<le> j \<Longrightarrow>
   resp (snd (legacy_config_read_loop dev i count s b)) ! j = resp b ! j"
proof (induction k arbitrary: i s b)
  case 0
  then show ?case by (simp add: read_loop_stop)
next
  case (Suc k)
  then have lt: "i < count" and k: "k = count - (i + 1)" by simp_all
  have su: "unat (rd_n s + 1) = unat (rd_n s) + 1" using Suc.prems(2) by (rule u8_succ_unat)
  note step = read_loop_active_step [OF lt Suc.prems(1,2), of dev b]
  let ?b2 = "b\<lparr> resp := (resp b)[PAYLOAD_IDX + 2 * i :=
                     req b ! (PAYLOAD_IDX + 2 * i) - start (param_info (rd_param s)),
                   PAYLOAD_IDX + 2 * i + 1 := ucast (drop_bit (unat (rd_n s) * 8) (rd_payload s))] \<rparr>"
  have j: "PAYLOAD_IDX + 2 * i + 2 \<le> j"
    using Suc.prems(4) min_tuples_pos [OF lt Suc.prems(2)] by arith
  then have b2: "resp ?b2 ! j = resp b ! j" by simp
  show ?case
  proof (cases "unat (rd_n s) + 1 = unat (len (param_info (rd_param s)))")
    case True
    then show ?thesis using b2 by (simp add: step Let_def)
  next
    case False
    let ?s2 = "s\<lparr> rd_n := rd_n s + 1 \<rparr>"
    have a: "0 < unat (rd_n ?s2)"
      and b: "unat (rd_n ?s2) < unat (len (param_info (rd_param ?s2)))"
      using False Suc.prems su by simp_all
    have "unat (rd_n s) + 1 < unat (len (param_info (rd_param s)))"
      using False Suc.prems(2) by simp
    from min_tuples_step [OF lt this]
    have c: "PAYLOAD_IDX + 2 * (i + 1 + min (count - (i + 1))
               (unat (len (param_info (rd_param ?s2))) - unat (rd_n ?s2))) \<le> j"
      using Suc.prems(4) su by simp
    have "resp (snd (legacy_config_read_loop dev i count s b)) ! j =
          resp (snd (legacy_config_read_loop dev (i + 1) count ?s2 ?b2)) ! j"
      using False by (simp add: step Let_def)
    also have "\<dots> = resp ?b2 ! j"
      by (rule Suc.IH [OF a b k c])
    finally show ?thesis using b2 by simp
  qed
qed

lemma read_loop_active_tuple:
  "0 < unat (rd_n s) \<Longrightarrow> unat (rd_n s) < unat (len (param_info (rd_param s))) \<Longrightarrow> k = count - i \<Longrightarrow>
   t < min (count - i) (unat (len (param_info (rd_param s))) - unat (rd_n s)) \<Longrightarrow>
   PAYLOAD_IDX + 2 * (i + t) + 1 < length (resp b) \<Longrightarrow>
   resp (snd (legacy_config_read_loop dev i count s b)) ! (PAYLOAD_IDX + 2 * (i + t)) =
     req b ! (PAYLOAD_IDX + 2 * (i + t)) - start (param_info (rd_param s)) \<and>
   resp (snd (legacy_config_read_loop dev i count s b)) ! (PAYLOAD_IDX + 2 * (i + t) + 1) =
     ucast (drop_bit ((unat (rd_n s) + t) * 8) (rd_payload s))"
proof (induction k arbitrary: i s b t)
  case 0
  then show ?case by simp
next
  case (Suc k)
  then have lt: "i < count" and k: "k = count - (i + 1)" by simp_all
  have su: "unat (rd_n s + 1) = unat (rd_n s) + 1" using Suc.prems(2) by (rule u8_succ_unat)
  note step = read_loop_active_step [OF lt Suc.prems(1,2), of dev b]
  let ?b2 = "b\<lparr> resp := (resp b)[PAYLOAD_IDX + 2 * i :=
                     req b ! (PAYLOAD_IDX + 2 * i) - start (param_info (rd_param s)),
                   PAYLOAD_IDX + 2 * i + 1 := ucast (drop_bit (unat (rd_n s) * 8) (rd_payload s))] \<rparr>"
  let ?s2 = "s\<lparr> rd_n := rd_n s + 1 \<rparr>"
  show ?case
  proof (cases t)
    case 0
    have here: "resp ?b2 ! (PAYLOAD_IDX + 2 * i) = req b ! (PAYLOAD_IDX + 2 * i) - start (param_info (rd_param s))"
      "resp ?b2 ! (PAYLOAD_IDX + 2 * i + 1) = ucast (drop_bit (unat (rd_n s) * 8) (rd_payload s))"
      using Suc.prems(5) 0 by simp_all
    have keep: "resp (snd (legacy_config_read_loop dev (i + 1) count ?s2 ?b2)) ! j = resp ?b2 ! j"
      if "j < PAYLOAD_IDX + 2 * (i + 1)" for j
      using that by (rule read_loop_before)
    show ?thesis
    proof (cases "unat (rd_n s) + 1 = unat (len (param_info (rd_param s)))")
      case True
      then show ?thesis using here 0 by (simp add: step Let_def)
    next
      case False
      then show ?thesis using here 0 keep [of "PAYLOAD_IDX + 2 * i"] keep [of "PAYLOAD_IDX + 2 * i + 1"]
        by (simp add: step Let_def)
    qed
  next
    case (Suc t')
    then have "Suc t' < min (count - i) (unat (len (param_info (rd_param s))) - unat (rd_n s))"
      using Suc.prems(4) by simp
    note m = min_tuples_Suc [OF this]
    then have ne: "unat (rd_n s) + 1 \<noteq> unat (len (param_info (rd_param s)))"
      by simp
    have a: "0 < unat (rd_n ?s2)"
      and b: "unat (rd_n ?s2) < unat (len (param_info (rd_param ?s2)))"
      using m su by simp_all
    have c: "t' < min (count - (i + 1)) (unat (len (param_info (rd_param ?s2))) - unat (rd_n ?s2))"
      using m su by simp
    have d: "PAYLOAD_IDX + 2 * (i + 1 + t') + 1 < length (resp ?b2)"
      using Suc.prems(5) Suc by simp
    have eq: "legacy_config_read_loop dev i count s b = legacy_config_read_loop dev (i + 1) count ?s2 ?b2"
      using ne by (simp add: step Let_def)
    show ?thesis
      using Suc.IH [OF a b k c d] Suc su
      by (simp add: eq add.commute add.left_commute)
  qed
qed

lemma read_loop_fresh_step:
  assumes "i < count" "rd_n s = 0"
  shows "legacy_config_read_loop dev i count s b =
     (let p = lookup_param (req b ! PAYLOAD_IDX);
          v = fst (perform_config_read dev p (trace s));
          tr = snd (perform_config_read dev p (trace s));
          b2 = b\<lparr> resp := (resp b)[PAYLOAD_IDX + 2 * i :=
                     req b ! (PAYLOAD_IDX + 2 * i) - start (param_info p),
                   PAYLOAD_IDX + 2 * i + 1 := ucast v] \<rparr>
      in if unat (len (param_info p)) \<le> 1
         then (s\<lparr> rd_param := CONFIG_UNKNOWN, rd_payload := 0, trace := tr \<rparr>, b2)
         else legacy_config_read_loop dev (i + 1) count
                (s\<lparr> rd_param := p, rd_payload := v, trace := tr, rd_n := 1 \<rparr>) b2)"
proof -
  have le1: "(x :: u8) \<le> 1 \<longleftrightarrow> unat x \<le> 1" for x
    by (simp add: word_le_nat_alt)
  show ?thesis
    using assms
    by (subst legacy_config_read_loop.simps)
      (simp add: Let_def le1 split: prod.splits)
qed

lemma read_loop_fresh_state:
  assumes "i < count" "rd_n s = 0"
    and "p = lookup_param (req b ! PAYLOAD_IDX)"
  shows "fst (legacy_config_read_loop dev i count s b) =
     (if max 1 (unat (len (param_info p))) \<le> count - i
      then s\<lparr> rd_param := CONFIG_UNKNOWN, rd_payload := 0,
               trace := snd (perform_config_read dev p (trace s)) \<rparr>
      else s\<lparr> rd_param := p, rd_payload := fst (perform_config_read dev p (trace s)),
               trace := snd (perform_config_read dev p (trace s)),
               rd_n := of_nat (count - i) \<rparr>)"
proof (cases "unat (len (param_info p)) \<le> 1")
  case True
  then show ?thesis
    using assms by (simp add: read_loop_fresh_step Let_def)
next
  case False
  let ?s2 = "s\<lparr> rd_param := p, rd_payload := fst (perform_config_read dev p (trace s)),
                 trace := snd (perform_config_read dev p (trace s)), rd_n := 1 \<rparr>"
  have a: "0 < unat (rd_n ?s2)" and b: "unat (rd_n ?s2) < unat (len (param_info (rd_param ?s2)))"
    using False by simp_all
  let ?b2 = "b\<lparr> resp := (resp b)[PAYLOAD_IDX + 2 * i :=
                     req b ! (PAYLOAD_IDX + 2 * i) - start (param_info p),
                   PAYLOAD_IDX + 2 * i + 1 := ucast (fst (perform_config_read dev p (trace s)))] \<rparr>"
  have c: "count - i = Suc (count - (i + 1))" using assms(1) by simp
  have "fst (legacy_config_read_loop dev i count s b) =
        fst (legacy_config_read_loop dev (i + 1) count ?s2 ?b2)"
    using False assms by (simp add: read_loop_fresh_step Let_def)
  also have "\<dots> = (if unat (len (param_info (rd_param ?s2))) - unat (rd_n ?s2) \<le> count - (i + 1)
      then ?s2\<lparr> rd_param := CONFIG_UNKNOWN, rd_n := 0, rd_payload := 0 \<rparr>
      else ?s2\<lparr> rd_n := rd_n ?s2 + of_nat (count - (i + 1)) \<rparr>)"
    by (rule read_loop_active_state [OF a b refl])
  also have "\<dots> = (if max 1 (unat (len (param_info p))) \<le> count - i
      then s\<lparr> rd_param := CONFIG_UNKNOWN, rd_payload := 0,
               trace := snd (perform_config_read dev p (trace s)) \<rparr>
      else s\<lparr> rd_param := p, rd_payload := fst (perform_config_read dev p (trace s)),
               trace := snd (perform_config_read dev p (trace s)),
               rd_n := of_nat (count - i) \<rparr>)"
    using False assms(2) by (auto simp add: c max_def simp del: of_nat_diff)
  finally show ?thesis .
qed

lemma max_tuples_fresh:
  "i < count \<Longrightarrow> 1 < L \<Longrightarrow> i + 1 + min (count - (i + 1)) (L - 1) = i + min (count - i) (max 1 (L::nat))"
  by arith

lemma read_loop_fresh_after:
  assumes "i < count" "rd_n s = 0"
    and "p = lookup_param (req b ! PAYLOAD_IDX)"
    and "PAYLOAD_IDX + 2 * (i + min (count - i) (max 1 (unat (len (param_info p))))) \<le> j"
  shows "resp (snd (legacy_config_read_loop dev i count s b)) ! j = resp b ! j"
proof -
  let ?v = "fst (perform_config_read dev p (trace s))"
  let ?b2 = "b\<lparr> resp := (resp b)[PAYLOAD_IDX + 2 * i :=
                     req b ! (PAYLOAD_IDX + 2 * i) - start (param_info p),
                   PAYLOAD_IDX + 2 * i + 1 := ucast ?v] \<rparr>"
  let ?s2 = "s\<lparr> rd_param := p, rd_payload := ?v,
                 trace := snd (perform_config_read dev p (trace s)), rd_n := 1 \<rparr>"
  have "i + 1 \<le> i + min (count - i) (max 1 (unat (len (param_info p))))"
    using assms(1) by arith
  then have j: "PAYLOAD_IDX + 2 * i + 2 \<le> j" using assms(4) by arith
  then have b2: "resp ?b2 ! j = resp b ! j" by simp
  show ?thesis
  proof (cases "unat (len (param_info p)) \<le> 1")
    case True
    then show ?thesis using assms(1-3) b2 by (simp add: read_loop_fresh_step Let_def)
  next
    case False
    have a: "0 < unat (rd_n ?s2)" and b: "unat (rd_n ?s2) < unat (len (param_info (rd_param ?s2)))"
      using False by simp_all
    have "1 < unat (len (param_info p))" using False by simp
    from max_tuples_fresh [OF assms(1) this]
    have c: "PAYLOAD_IDX + 2 * (i + 1 + min (count - (i + 1))
               (unat (len (param_info (rd_param ?s2))) - unat (rd_n ?s2))) \<le> j"
      using assms(4) by simp
    have "resp (snd (legacy_config_read_loop dev i count s b)) ! j =
          resp (snd (legacy_config_read_loop dev (i + 1) count ?s2 ?b2)) ! j"
      using False assms(1-3) by (simp add: read_loop_fresh_step Let_def)
    also have "\<dots> = resp ?b2 ! j"
      by (rule read_loop_active_after [OF a b refl c])
    finally show ?thesis using b2 by simp
  qed
qed

lemma read_loop_fresh_tuple:
  assumes "i < count" "rd_n s = 0"
    and "p = lookup_param (req b ! PAYLOAD_IDX)"
    and "t < min (count - i) (max 1 (unat (len (param_info p))))"
    and "PAYLOAD_IDX + 2 * (i + t) + 1 < length (resp b)"
  shows "resp (snd (legacy_config_read_loop dev i count s b)) ! (PAYLOAD_IDX + 2 * (i + t)) =
           req b ! (PAYLOAD_IDX + 2 * (i + t)) - start (param_info p) \<and>
         resp (snd (legacy_config_read_loop dev i count s b)) ! (PAYLOAD_IDX + 2 * (i + t) + 1) =
           ucast (drop_bit (t * 8) (fst (perform_config_read dev p (trace s))))"
proof -
  let ?v = "fst (perform_config_read dev p (trace s))"
  let ?b2 = "b\<lparr> resp := (resp b)[PAYLOAD_IDX + 2 * i :=
                     req b ! (PAYLOAD_IDX + 2 * i) - start (param_info p),
                   PAYLOAD_IDX + 2 * i + 1 := ucast ?v] \<rparr>"
  let ?s2 = "s\<lparr> rd_param := p, rd_payload := ?v,
                 trace := snd (perform_config_read dev p (trace s)), rd_n := 1 \<rparr>"
  show ?thesis
  proof (cases t)
    case 0
    have here: "resp ?b2 ! (PAYLOAD_IDX + 2 * i) = req b ! (PAYLOAD_IDX + 2 * i) - start (param_info p)"
      "resp ?b2 ! (PAYLOAD_IDX + 2 * i + 1) = ucast ?v"
      using assms(5) 0 by simp_all
    have keep: "resp (snd (legacy_config_read_loop dev (i + 1) count ?s2 ?b2)) ! j = resp ?b2 ! j"
      if "j < PAYLOAD_IDX + 2 * (i + 1)" for j
      using that by (rule read_loop_before)
    show ?thesis
    proof (cases "unat (len (param_info p)) \<le> 1")
      case True
      then show ?thesis using here 0 assms(1-3) by (simp add: read_loop_fresh_step Let_def)
    next
      case False
      then show ?thesis
        using here 0 assms(1-3) keep [of "PAYLOAD_IDX + 2 * i"] keep [of "PAYLOAD_IDX + 2 * i + 1"]
        by (simp add: read_loop_fresh_step Let_def)
    qed
  next
    case (Suc t')
    then have big: "1 < unat (len (param_info p))" and t': "t' < min (count - (i + 1)) (unat (len (param_info p)) - 1)"
      using assms(4) by arith+
    have a: "0 < unat (rd_n ?s2)" and b: "unat (rd_n ?s2) < unat (len (param_info (rd_param ?s2)))"
      using big by simp_all
    have c: "t' < min (count - (i + 1)) (unat (len (param_info (rd_param ?s2))) - unat (rd_n ?s2))"
      using t' by simp
    have d: "PAYLOAD_IDX + 2 * (i + 1 + t') + 1 < length (resp ?b2)"
      using assms(5) Suc by simp
    have eq: "legacy_config_read_loop dev i count s b = legacy_config_read_loop dev (i + 1) count ?s2 ?b2"
      using big assms(1-3) by (simp add: read_loop_fresh_step Let_def)
    show ?thesis
      using read_loop_active_tuple [OF a b refl c d, of dev] Suc
      by (simp add: eq add.commute add.left_commute)
  qed
qed

subsection \<open>The dispatcher\<close>

text \<open>
  C8. When the control byte has neither the READ bit nor the WRITE bit, or when its
  device field is none of CONFIG, LMS and SI5338 (the reserved value \<open>0x20\<close>), the
  handler returns the state and the buffers as they were: no peripheral call is added
  to the trace, the response is untouched and the statics of both config paths keep
  their values.
\<close>

theorem pkt_legacy_ignored:
  "(req b ! PKT_CFG_IDX AND UART_PKT_MODE_DIR_READ = 0 \<and>
    req b ! PKT_CFG_IDX AND UART_PKT_MODE_DIR_WRITE = 0)
   \<or> req b ! PKT_CFG_IDX AND UART_PKT_MODE_DEV_MASK \<notin>
        {UART_PKT_DEV_CONFIG, UART_PKT_DEV_LMS, UART_PKT_DEV_SI5338}
   \<Longrightarrow> pkt_legacy ws dev s b = (s, b)"
  by (auto simp add: pkt_legacy_def legacy_pkt_read_def legacy_pkt_write_def Let_def)

text \<open>A frame with no direction bit, and a read frame for the reserved device.\<close>

theorem pkt_legacy_ignored_witness:
  "pkt_legacy shift_mod32 (fixed_periph 5) fw_init \<lparr> req = [0x07, 0, 1, 2, 3, 4, 5, 6, 7, 8, 9, 10, 11, 12, 13, 14], resp = sample_resp \<rparr>
     = (fw_init, \<lparr> req = [0x07, 0, 1, 2, 3, 4, 5, 6, 7, 8, 9, 10, 11, 12, 13, 14], resp = sample_resp \<rparr>)
   \<and> pkt_legacy shift_mod32 (fixed_periph 5) fw_init \<lparr> req = [0xA1, 0, 1, 2, 3, 4, 5, 6, 7, 8, 9, 10, 11, 12, 13, 14], resp = sample_resp \<rparr>
     = (fw_init, \<lparr> req = [0xA1, 0, 1, 2, 3, 4, 5, 6, 7, 8, 9, 10, 11, 12, 13, 14], resp = sample_resp \<rparr>)"
  using pkt_legacy_ignored [where b = "\<lparr> req = [0x07, 0, 1, 2, 3, 4, 5, 6, 7, 8, 9, 10, 11, 12, 13, 14], resp = sample_resp \<rparr>"
      and ws = shift_mod32 and dev = "fixed_periph 5" and s = fw_init]
    pkt_legacy_ignored [where b = "\<lparr> req = [0xA1, 0, 1, 2, 3, 4, 5, 6, 7, 8, 9, 10, 11, 12, 13, 14], resp = sample_resp \<rparr>"
      and ws = shift_mod32 and dev = "fixed_periph 5" and s = fw_init]
  by (simp add: PKT_CFG_IDX_def uart_consts UART_PKT_MODE_DEV_MASK_def)

lemma legacy_pkt_read_no_write:
  "filter is_write_call (trace (fst (legacy_pkt_read dev dev_id count s b))) =
   filter is_write_call (trace s)"
  by (simp add: legacy_pkt_read_def legacy_config_read_def read_loop_no_write periph_read_def Let_def)

lemma legacy_pkt_read_write_state:
  "wr_n (fst (legacy_pkt_read dev dev_id count s b)) = wr_n s \<and>
   wr_payload (fst (legacy_pkt_read dev dev_id count s b)) = wr_payload s \<and>
   wr_param (fst (legacy_pkt_read dev dev_id count s b)) = wr_param s"
  by (simp add: legacy_pkt_read_def legacy_config_read_def read_loop_write_state periph_read_def Let_def)

text \<open>
  C10. When both the READ and the WRITE bit are set, the handler does exactly what
  \<open>legacy_pkt_read\<close> does for the frame's device and count: the write calls in the
  trace are those made before (no write accessor is called) and the statics of the
  config write path are unchanged.
\<close>

theorem pkt_legacy_read_priority:
  "req b ! PKT_CFG_IDX AND UART_PKT_MODE_DIR_READ \<noteq> 0 \<Longrightarrow>
   req b ! PKT_CFG_IDX AND UART_PKT_MODE_DIR_WRITE \<noteq> 0 \<Longrightarrow>
   pkt_legacy ws dev s b =
     legacy_pkt_read dev (req b ! PKT_CFG_IDX AND UART_PKT_MODE_DEV_MASK)
       (req b ! PKT_CFG_IDX AND UART_PKT_MODE_CNT_MASK) s b \<and>
   filter is_write_call (trace (fst (pkt_legacy ws dev s b))) = filter is_write_call (trace s) \<and>
   wr_n (fst (pkt_legacy ws dev s b)) = wr_n s \<and>
   wr_payload (fst (pkt_legacy ws dev s b)) = wr_payload s \<and>
   wr_param (fst (pkt_legacy ws dev s b)) = wr_param s"
  by (simp add: pkt_legacy_def Let_def legacy_pkt_read_no_write legacy_pkt_read_write_state)

text \<open>A frame for the LMS6002D with both direction bits set: one read call, no write.\<close>

theorem pkt_legacy_read_priority_witness:
  "trace (fst (pkt_legacy shift_mod32 (fixed_periph 0x5A) fw_init
      \<lparr> req = [0xD1, 0, 5, 0x77, 0, 0, 0, 0, 0, 0, 0, 0, 0, 0, 0, 0], resp = sample_resp \<rparr>))
     = [Lms6_read 5] \<and>
   filter is_write_call (trace (fst (pkt_legacy shift_mod32 (fixed_periph 0x5A) fw_init
      \<lparr> req = [0xD1, 0, 5, 0x77, 0, 0, 0, 0, 0, 0, 0, 0, 0, 0, 0, 0], resp = sample_resp \<rparr>))) = []"
  using pkt_legacy_read_priority [where b = "\<lparr> req = [0xD1, 0, 5, 0x77, 0, 0, 0, 0, 0, 0, 0, 0, 0, 0, 0, 0], resp = sample_resp \<rparr>"
      and ws = shift_mod32 and dev = "fixed_periph 0x5A" and s = fw_init]
  by (simp add: PKT_CFG_IDX_def uart_consts UART_PKT_MODE_DEV_MASK_def UART_PKT_MODE_CNT_MASK_def
      legacy_pkt_read_def periph_read_def fixed_periph_def ADDR_IDX_def DATA_IDX_def PAYLOAD_IDX_def
      fw_init_def Let_def)

text \<open>
  C7. For a frame addressed to the LMS6002D transceiver or to the Si5338 clock
  synthesizer, whatever its count field: a read (READ bit set) makes the one call to
  the chip's read accessor with the first tuple's address, and stores that address and
  the returned byte at \<open>ADDR_IDX\<close> and \<open>DATA_IDX\<close> of the response; a write (WRITE bit
  set, READ bit clear) makes the one call to the chip's write accessor with the first
  tuple's address and data, and stores the address and a zero byte. Nothing else of the
  response changes, and of the state only the trace: the result does not depend on the
  statics of the config paths and leaves them as they were.
\<close>

theorem pkt_legacy_chip_access:
  "(let cfg = req b ! PKT_CFG_IDX; a = req b ! ADDR_IDX; d = req b ! DATA_IDX;
        is_read = (cfg AND UART_PKT_MODE_DIR_READ \<noteq> 0);
        is_write = (cfg AND UART_PKT_MODE_DIR_READ = 0 \<and> cfg AND UART_PKT_MODE_DIR_WRITE \<noteq> 0);
        lms = (cfg AND UART_PKT_MODE_DEV_MASK = UART_PKT_DEV_LMS);
        si = (cfg AND UART_PKT_MODE_DEV_MASK = UART_PKT_DEV_SI5338)
    in (lms \<and> is_read \<longrightarrow> pkt_legacy ws dev s b =
          (s\<lparr> trace := trace s @ [Lms6_read a] \<rparr>,
           b\<lparr> resp := (resp b)[ADDR_IDX := a, DATA_IDX := ucast (dev (trace s) (Lms6_read a))] \<rparr>))
     \<and> (si \<and> is_read \<longrightarrow> pkt_legacy ws dev s b =
          (s\<lparr> trace := trace s @ [Si5338_read a] \<rparr>,
           b\<lparr> resp := (resp b)[ADDR_IDX := a, DATA_IDX := ucast (dev (trace s) (Si5338_read a))] \<rparr>))
     \<and> (lms \<and> is_write \<longrightarrow> pkt_legacy ws dev s b =
          (s\<lparr> trace := trace s @ [Lms6_write a d] \<rparr>,
           b\<lparr> resp := (resp b)[ADDR_IDX := a, DATA_IDX := 0] \<rparr>))
     \<and> (si \<and> is_write \<longrightarrow> pkt_legacy ws dev s b =
          (s\<lparr> trace := trace s @ [Si5338_write a d] \<rparr>,
           b\<lparr> resp := (resp b)[ADDR_IDX := a, DATA_IDX := 0] \<rparr>)))"
  by (simp add: pkt_legacy_def legacy_pkt_read_def legacy_pkt_write_def periph_read_def Let_def
      uart_consts)

text \<open>Four frames with count 7, handled in the middle of a config read transfer.\<close>

theorem pkt_legacy_chip_access_witness:
  "pkt_legacy shift_mod32 (fixed_periph 0x5A) (fw_init\<lparr> rd_n := 3, rd_param := CONFIG_RX_TIMESTAMP \<rparr>)
      \<lparr> req = [0x97, 0, 5, 0x77, 6, 0x78, 7, 0x79, 0, 0, 0, 0, 0, 0, 0, 0], resp = sample_resp \<rparr>
     = (fw_init\<lparr> rd_n := 3, rd_param := CONFIG_RX_TIMESTAMP, trace := [Lms6_read 5] \<rparr>,
        \<lparr> req = [0x97, 0, 5, 0x77, 6, 0x78, 7, 0x79, 0, 0, 0, 0, 0, 0, 0, 0],
          resp = [0xEE, 0xEE, 5, 0x5A, 0xEE, 0xEE, 0xEE, 0xEE, 0xEE, 0xEE, 0xEE, 0xEE, 0xEE, 0xEE, 0xEE, 0xEE] \<rparr>)
   \<and> pkt_legacy shift_mod32 (fixed_periph 0x5A) (fw_init\<lparr> rd_n := 3, rd_param := CONFIG_RX_TIMESTAMP \<rparr>)
      \<lparr> req = [0xB7, 0, 5, 0x77, 6, 0x78, 7, 0x79, 0, 0, 0, 0, 0, 0, 0, 0], resp = sample_resp \<rparr>
     = (fw_init\<lparr> rd_n := 3, rd_param := CONFIG_RX_TIMESTAMP, trace := [Si5338_read 5] \<rparr>,
        \<lparr> req = [0xB7, 0, 5, 0x77, 6, 0x78, 7, 0x79, 0, 0, 0, 0, 0, 0, 0, 0],
          resp = [0xEE, 0xEE, 5, 0x5A, 0xEE, 0xEE, 0xEE, 0xEE, 0xEE, 0xEE, 0xEE, 0xEE, 0xEE, 0xEE, 0xEE, 0xEE] \<rparr>)
   \<and> pkt_legacy shift_mod32 (fixed_periph 0x5A) (fw_init\<lparr> rd_n := 3, rd_param := CONFIG_RX_TIMESTAMP \<rparr>)
      \<lparr> req = [0x57, 0, 5, 0x77, 6, 0x78, 7, 0x79, 0, 0, 0, 0, 0, 0, 0, 0], resp = sample_resp \<rparr>
     = (fw_init\<lparr> rd_n := 3, rd_param := CONFIG_RX_TIMESTAMP, trace := [Lms6_write 5 0x77] \<rparr>,
        \<lparr> req = [0x57, 0, 5, 0x77, 6, 0x78, 7, 0x79, 0, 0, 0, 0, 0, 0, 0, 0],
          resp = [0xEE, 0xEE, 5, 0, 0xEE, 0xEE, 0xEE, 0xEE, 0xEE, 0xEE, 0xEE, 0xEE, 0xEE, 0xEE, 0xEE, 0xEE] \<rparr>)
   \<and> pkt_legacy shift_mod32 (fixed_periph 0x5A) (fw_init\<lparr> rd_n := 3, rd_param := CONFIG_RX_TIMESTAMP \<rparr>)
      \<lparr> req = [0x77, 0, 5, 0x77, 6, 0x78, 7, 0x79, 0, 0, 0, 0, 0, 0, 0, 0], resp = sample_resp \<rparr>
     = (fw_init\<lparr> rd_n := 3, rd_param := CONFIG_RX_TIMESTAMP, trace := [Si5338_write 5 0x77] \<rparr>,
        \<lparr> req = [0x77, 0, 5, 0x77, 6, 0x78, 7, 0x79, 0, 0, 0, 0, 0, 0, 0, 0],
          resp = [0xEE, 0xEE, 5, 0, 0xEE, 0xEE, 0xEE, 0xEE, 0xEE, 0xEE, 0xEE, 0xEE, 0xEE, 0xEE, 0xEE, 0xEE] \<rparr>)"
  using
    pkt_legacy_chip_access [where b = "\<lparr> req = [0x97, 0, 5, 0x77, 6, 0x78, 7, 0x79, 0, 0, 0, 0, 0, 0, 0, 0], resp = sample_resp \<rparr>"
      and ws = shift_mod32 and dev = "fixed_periph 0x5A"
      and s = "fw_init\<lparr> rd_n := 3, rd_param := CONFIG_RX_TIMESTAMP \<rparr>"]
    pkt_legacy_chip_access [where b = "\<lparr> req = [0xB7, 0, 5, 0x77, 6, 0x78, 7, 0x79, 0, 0, 0, 0, 0, 0, 0, 0], resp = sample_resp \<rparr>"
      and ws = shift_mod32 and dev = "fixed_periph 0x5A"
      and s = "fw_init\<lparr> rd_n := 3, rd_param := CONFIG_RX_TIMESTAMP \<rparr>"]
    pkt_legacy_chip_access [where b = "\<lparr> req = [0x57, 0, 5, 0x77, 6, 0x78, 7, 0x79, 0, 0, 0, 0, 0, 0, 0, 0], resp = sample_resp \<rparr>"
      and ws = shift_mod32 and dev = "fixed_periph 0x5A"
      and s = "fw_init\<lparr> rd_n := 3, rd_param := CONFIG_RX_TIMESTAMP \<rparr>"]
    pkt_legacy_chip_access [where b = "\<lparr> req = [0x77, 0, 5, 0x77, 6, 0x78, 7, 0x79, 0, 0, 0, 0, 0, 0, 0, 0], resp = sample_resp \<rparr>"
      and ws = shift_mod32 and dev = "fixed_periph 0x5A"
      and s = "fw_init\<lparr> rd_n := 3, rd_param := CONFIG_RX_TIMESTAMP \<rparr>"]
  by (simp add: Let_def PKT_CFG_IDX_def uart_consts UART_PKT_MODE_DEV_MASK_def
      fixed_periph_def ADDR_IDX_def DATA_IDX_def PAYLOAD_IDX_def fw_init_def sample_resp_def)

subsection \<open>Config accesses\<close>

lemma pkt_legacy_config_read:
  "req b ! PKT_CFG_IDX AND UART_PKT_MODE_DIR_READ \<noteq> 0 \<Longrightarrow>
   req b ! PKT_CFG_IDX AND UART_PKT_MODE_DEV_MASK = UART_PKT_DEV_CONFIG \<Longrightarrow>
   pkt_legacy ws dev s b = legacy_config_read dev (req b ! PKT_CFG_IDX AND UART_PKT_MODE_CNT_MASK) s b"
  by (simp add: pkt_legacy_def legacy_pkt_read_def Let_def uart_consts)

lemma pkt_legacy_config_write:
  "req b ! PKT_CFG_IDX AND UART_PKT_MODE_DIR_READ = 0 \<Longrightarrow>
   req b ! PKT_CFG_IDX AND UART_PKT_MODE_DIR_WRITE \<noteq> 0 \<Longrightarrow>
   req b ! PKT_CFG_IDX AND UART_PKT_MODE_DEV_MASK = UART_PKT_DEV_CONFIG \<Longrightarrow>
   pkt_legacy ws dev s b = legacy_config_write ws (req b ! PKT_CFG_IDX AND UART_PKT_MODE_CNT_MASK) s b"
  by (simp add: pkt_legacy_def legacy_pkt_write_def Let_def uart_consts)

lemma lookup_param_outside:
  assumes "\<forall>q. \<not> addr_in_range q a"
  shows "lookup_param a = CONFIG_UNKNOWN"
proof -
  have "\<not> addr_in_range CONFIG_CONTROL_REG a" "\<not> addr_in_range CONFIG_IQ_CORR_RX_GAIN a"
    "\<not> addr_in_range CONFIG_IQ_CORR_RX_PHASE a" "\<not> addr_in_range CONFIG_IQ_CORR_TX_GAIN a"
    "\<not> addr_in_range CONFIG_IQ_CORR_TX_PHASE a" "\<not> addr_in_range CONFIG_FPGA_VERSION a"
    "\<not> addr_in_range CONFIG_RX_TIMESTAMP a" "\<not> addr_in_range CONFIG_TX_TIMESTAMP a"
    "\<not> addr_in_range CONFIG_VCTXCO a" "\<not> addr_in_range CONFIG_XB200_SYNTH a"
    "\<not> addr_in_range CONFIG_EXPANSION a" "\<not> addr_in_range CONFIG_EXPANSION_DIR a"
    using assms by blast+
  then show ?thesis
    by (simp add: addr_in_range_def param_info_simps lookup_param_unfold)
qed

lemma ucast_all_ones: "(ucast (- 1 :: u64) :: u8) = 0xFF"
proof -
  have "(ucast (- 1 :: u64) :: u8) = - 1"
    by (rule bit_word_eqI) (simp add: bit_simps)
  then show ?thesis by simp
qed

lemma write_loop_stop:
  "count \<le> i \<or> len (param_info (wr_param s)) \<le> wr_n s \<Longrightarrow>
   legacy_config_write_loop ws i count s b = (s, b)"
  by (subst legacy_config_write_loop.simps) (auto simp add: not_less)

text \<open>
  C9. Let the first tuple's address of a CONFIG frame lie in no descriptor's range. Then
  it resolves to \<open>CONFIG_UNKNOWN\<close>, whose length is zero; the read accessor returns all
  ones for it and the write accessor does nothing, neither calling a peripheral. A read
  frame with at least one tuple, handled with the read path idle, services one tuple:
  its response data byte is \<open>0xFF\<close> (and its address byte the request's minus the
  sentinel's start 255), the rest of the response is untouched and the read path is idle
  again. A write frame, handled with the write path idle, consumes no tuple, leaves the
  response and the trace as they were, and the write path is idle again.
\<close>

theorem pkt_legacy_unknown_address:
  assumes "\<forall>q. \<not> addr_in_range q (req b ! PAYLOAD_IDX)"
    and "req b ! PKT_CFG_IDX AND UART_PKT_MODE_DEV_MASK = UART_PKT_DEV_CONFIG"
  shows "lookup_param (req b ! PAYLOAD_IDX) = CONFIG_UNKNOWN \<and>
         len (param_info CONFIG_UNKNOWN) = 0 \<and>
         perform_config_read dev CONFIG_UNKNOWN (trace s) = (- 1, trace s) \<and>
         perform_config_write CONFIG_UNKNOWN v (trace s) = trace s \<and>
         (req b ! PKT_CFG_IDX AND UART_PKT_MODE_DIR_READ \<noteq> 0 \<and>
          req b ! PKT_CFG_IDX AND UART_PKT_MODE_CNT_MASK \<noteq> 0 \<and> rd_n s = 0 \<longrightarrow>
            pkt_legacy ws dev s b =
              (s\<lparr> rd_param := CONFIG_UNKNOWN, rd_payload := 0 \<rparr>,
               b\<lparr> resp := (resp b)[PAYLOAD_IDX := req b ! PAYLOAD_IDX - 255,
                                     PAYLOAD_IDX + 1 := 0xFF] \<rparr>)) \<and>
         (req b ! PKT_CFG_IDX AND UART_PKT_MODE_DIR_READ = 0 \<and>
          req b ! PKT_CFG_IDX AND UART_PKT_MODE_DIR_WRITE \<noteq> 0 \<and> wr_n s = 0 \<longrightarrow>
            pkt_legacy ws dev s b = (s\<lparr> wr_param := CONFIG_UNKNOWN, wr_payload := 0 \<rparr>, b))"
proof -
  have unk: "lookup_param (req b ! PAYLOAD_IDX) = CONFIG_UNKNOWN"
    using assms(1) by (rule lookup_param_outside)
  have rd: "pkt_legacy ws dev s b =
              (s\<lparr> rd_param := CONFIG_UNKNOWN, rd_payload := 0 \<rparr>,
               b\<lparr> resp := (resp b)[PAYLOAD_IDX := req b ! PAYLOAD_IDX - 255,
                                     PAYLOAD_IDX + 1 := 0xFF] \<rparr>)"
    if "req b ! PKT_CFG_IDX AND UART_PKT_MODE_DIR_READ \<noteq> 0"
      and "req b ! PKT_CFG_IDX AND UART_PKT_MODE_CNT_MASK \<noteq> 0" and "rd_n s = 0"
  proof -
    have "0 < unat (req b ! PKT_CFG_IDX AND UART_PKT_MODE_CNT_MASK)"
      using that(2) by (simp add: unat_gt_0)
    then show ?thesis
      using that(1,3) assms(2) unk
      by (simp add: pkt_legacy_config_read legacy_config_read_def read_loop_fresh_step
          Let_def param_info_simps ucast_all_ones)
  qed
  have wr: "pkt_legacy ws dev s b = (s\<lparr> wr_param := CONFIG_UNKNOWN, wr_payload := 0 \<rparr>, b)"
    if "req b ! PKT_CFG_IDX AND UART_PKT_MODE_DIR_READ = 0"
      and "req b ! PKT_CFG_IDX AND UART_PKT_MODE_DIR_WRITE \<noteq> 0" and "wr_n s = 0"
    using that assms(2) unk
    by (simp add: pkt_legacy_config_write legacy_config_write_def write_loop_stop
        Let_def param_info_simps)
  show ?thesis
    using unk rd wr by (simp add: param_info_simps)
qed

text \<open>A read and a write frame whose first address is 33, at firmware start.\<close>

theorem pkt_legacy_unknown_address_witness:
  "(\<forall>q. \<not> addr_in_range q 33) \<and>
   pkt_legacy shift_mod32 (fixed_periph 7) fw_init
      \<lparr> req = [0x83, 0, 33, 0, 34, 0, 35, 0, 0, 0, 0, 0, 0, 0, 0, 0], resp = sample_resp \<rparr>
     = (fw_init,
        \<lparr> req = [0x83, 0, 33, 0, 34, 0, 35, 0, 0, 0, 0, 0, 0, 0, 0, 0],
          resp = [0xEE, 0xEE, 34, 0xFF, 0xEE, 0xEE, 0xEE, 0xEE,
                  0xEE, 0xEE, 0xEE, 0xEE, 0xEE, 0xEE, 0xEE, 0xEE] \<rparr>) \<and>
   pkt_legacy shift_mod32 (fixed_periph 7) fw_init
      \<lparr> req = [0x43, 0, 33, 0x11, 34, 0x22, 35, 0x33, 0, 0, 0, 0, 0, 0, 0, 0], resp = sample_resp \<rparr>
     = (fw_init\<lparr> wr_param := CONFIG_UNKNOWN \<rparr>,
        \<lparr> req = [0x43, 0, 33, 0x11, 34, 0x22, 35, 0x33, 0, 0, 0, 0, 0, 0, 0, 0], resp = sample_resp \<rparr>)"
proof -
  have out33: "\<forall>q. \<not> addr_in_range q 33"
  proof
    fix q show "\<not> addr_in_range q 33"
      by (cases q) (simp_all add: addr_in_range_def param_info_simps)
  qed
  let ?r = "\<lparr> req = [0x83, 0, 33, 0, 34, 0, 35, 0, 0, 0, 0, 0, 0, 0, 0, 0], resp = sample_resp \<rparr>"
  let ?w = "\<lparr> req = [0x43, 0, 33, 0x11, 34, 0x22, 35, 0x33, 0, 0, 0, 0, 0, 0, 0, 0], resp = sample_resp \<rparr>"
  have r1: "\<forall>q. \<not> addr_in_range q (req ?r ! PAYLOAD_IDX)"
    and w1: "\<forall>q. \<not> addr_in_range q (req ?w ! PAYLOAD_IDX)"
    using out33 by (simp_all add: PAYLOAD_IDX_def)
  have r2: "req ?r ! PKT_CFG_IDX AND UART_PKT_MODE_DEV_MASK = UART_PKT_DEV_CONFIG"
    and w2: "req ?w ! PKT_CFG_IDX AND UART_PKT_MODE_DEV_MASK = UART_PKT_DEV_CONFIG"
    by (simp_all add: PKT_CFG_IDX_def UART_PKT_MODE_DEV_MASK_def uart_consts)
  show ?thesis
    using out33 pkt_legacy_unknown_address [OF r1 r2, where dev = "fixed_periph 7" and s = fw_init and v = 0
        and ws = shift_mod32]
      pkt_legacy_unknown_address [OF w1 w2, where dev = "fixed_periph 7" and s = fw_init and v = 0
        and ws = shift_mod32]
    by (simp add: PKT_CFG_IDX_def PAYLOAD_IDX_def UART_PKT_MODE_CNT_MASK_def uart_consts
        fw_init_def sample_resp_def)
qed

subsection \<open>Completion of a read\<close>

text \<open>
  C6. Let the read path be idle or in the middle of a parameter, let \<open>p\<close> be the
  parameter served (looked up from the first tuple when idle, the stored one
  otherwise) and \<open>r\<close> the number of tuples after which \<open>n\<close> reaches its length (at
  least one tuple is always served). If the frame has at least \<open>r\<close> tuples, then
  \<open>legacy_config_read\<close> returns with the read path idle (\<open>n\<close> and \<open>payload\<close> zero,
  \<open>param\<close> \<open>CONFIG_UNKNOWN\<close>), and the response bytes of every tuple after the first
  \<open>r\<close> are those the caller put there, as are the two header bytes.
\<close>

theorem legacy_config_read_completes:
  assumes "rd_n s = 0 \<or> unat (rd_n s) < unat (len (param_info (rd_param s)))"
    and "p = (if rd_n s = 0 then lookup_param (req b ! PAYLOAD_IDX) else rd_param s)"
    and "r = max 1 (unat (len (param_info p)) - unat (rd_n s))"
    and "r \<le> unat count"
  shows "rd_n (fst (legacy_config_read dev count s b)) = 0 \<and>
         rd_param (fst (legacy_config_read dev count s b)) = CONFIG_UNKNOWN \<and>
         rd_payload (fst (legacy_config_read dev count s b)) = 0 \<and>
         (\<forall>j. PAYLOAD_IDX + 2 * r \<le> j \<longrightarrow>
              resp (snd (legacy_config_read dev count s b)) ! j = resp b ! j) \<and>
         (\<forall>j. j < PAYLOAD_IDX \<longrightarrow>
              resp (snd (legacy_config_read dev count s b)) ! j = resp b ! j) \<and>
         length (resp (snd (legacy_config_read dev count s b))) = length (resp b)"
proof (cases "rd_n s = 0")
  case True
  have pos: "0 < unat count" using assms(3,4) by simp
  have p: "p = lookup_param (req b ! PAYLOAD_IDX)" using True assms(2) by simp
  have r: "r = max 1 (unat (len (param_info p)))" using True assms(3) by simp
  have m: "min (unat count - 0) (max 1 (unat (len (param_info p)))) = r"
    using r assms(4) by simp
  have st: "fst (legacy_config_read dev count s b) =
        s\<lparr> rd_param := CONFIG_UNKNOWN, rd_payload := 0,
           trace := snd (perform_config_read dev p (trace s)) \<rparr>"
    using read_loop_fresh_state [OF pos True p, of dev] r assms(4)
    by (simp add: legacy_config_read_def)
  have after: "resp (snd (legacy_config_read dev count s b)) ! j = resp b ! j"
    if "PAYLOAD_IDX + 2 * r \<le> j" for j
    unfolding legacy_config_read_def
    by (rule read_loop_fresh_after [OF pos True p]) (use that m in simp)
  show ?thesis
    using st True after
    by (simp add: legacy_config_read_def read_loop_before read_loop_length)
next
  case False
  then have act: "0 < unat (rd_n s)" "unat (rd_n s) < unat (len (param_info (rd_param s)))"
    using assms(1) by (simp_all add: unat_gt_0)
  have p: "p = rd_param s" using False assms(2) by simp
  have r: "r = unat (len (param_info (rd_param s))) - unat (rd_n s)"
    using act p assms(3) by simp
  have m: "min (unat count - 0) (unat (len (param_info (rd_param s))) - unat (rd_n s)) = r"
    using r assms(4) by simp
  have st: "fst (legacy_config_read dev count s b) =
        s\<lparr> rd_param := CONFIG_UNKNOWN, rd_n := 0, rd_payload := 0 \<rparr>"
    using read_loop_active_state [OF act refl, where dev = dev and count = "unat count" and i = 0 and b = b] r assms(4)
    by (simp add: legacy_config_read_def)
  have after: "resp (snd (legacy_config_read dev count s b)) ! j = resp b ! j"
    if "PAYLOAD_IDX + 2 * r \<le> j" for j
    unfolding legacy_config_read_def
    by (rule read_loop_active_after [OF act refl]) (use that m in simp)
  show ?thesis
    using st after
    by (simp add: legacy_config_read_def read_loop_before read_loop_length)
qed

text \<open>
  A frame of seven tuples reading the RX IQ gain (two bytes) at firmware start, and a
  frame of five tuples arriving when six bytes of the RX timestamp have been served.
\<close>

theorem legacy_config_read_completes_witness:
  "(let b = \<lparr> req = [0x87, 0, 4, 0, 5, 0, 6, 0, 7, 0, 8, 0, 9, 0, 10, 0], resp = sample_resp \<rparr>;
        s = fw_init\<lparr> rd_n := 6, rd_param := CONFIG_RX_TIMESTAMP, rd_payload := 0x0807060504030201 \<rparr>
    in rd_n (fst (legacy_config_read (fixed_periph 0x1234) 7 fw_init b)) = 0 \<and>
       rd_param (fst (legacy_config_read (fixed_periph 0x1234) 7 fw_init b)) = CONFIG_UNKNOWN \<and>
       resp (snd (legacy_config_read (fixed_periph 0x1234) 7 fw_init b)) ! 6 = 0xEE \<and>
       resp (snd (legacy_config_read (fixed_periph 0x1234) 7 fw_init b)) ! 15 = 0xEE \<and>
       rd_n (fst (legacy_config_read (fixed_periph 0x1234) 5 s b)) = 0 \<and>
       rd_payload (fst (legacy_config_read (fixed_periph 0x1234) 5 s b)) = 0 \<and>
       resp (snd (legacy_config_read (fixed_periph 0x1234) 5 s b)) ! 6 = 0xEE)"
proof -
  define b where "b = \<lparr> req = [0x87, 0, 4, 0, 5, 0, 6, 0, 7, 0, 8, 0, 9, 0, 10, 0 :: u8], resp = sample_resp \<rparr>"
  define s where "s = fw_init\<lparr> rd_n := 6, rd_param := CONFIG_RX_TIMESTAMP, rd_payload := 0x0807060504030201 \<rparr>"
  have lk: "lookup_param (req b ! PAYLOAD_IDX) = CONFIG_IQ_CORR_RX_GAIN"
    by (simp add: b_def PAYLOAD_IDX_def lookup_param_unfold)
  have a1: "rd_n fw_init = 0 \<or> unat (rd_n fw_init) < unat (len (param_info (rd_param fw_init)))"
    by (simp add: fw_init_def)
  have a2: "CONFIG_IQ_CORR_RX_GAIN =
      (if rd_n fw_init = 0 then lookup_param (req b ! PAYLOAD_IDX) else rd_param fw_init)"
    by (simp add: lk fw_init_def)
  have a3: "2 = max 1 (unat (len (param_info CONFIG_IQ_CORR_RX_GAIN)) - unat (rd_n fw_init))"
    by (simp add: param_info_simps fw_init_def)
  have a4: "2 \<le> unat (7 :: u8)" by simp
  note t1 = legacy_config_read_completes [OF a1 a2 a3 a4, of "fixed_periph 0x1234"]
  have b1: "rd_n s = 0 \<or> unat (rd_n s) < unat (len (param_info (rd_param s)))"
    by (simp add: s_def param_info_simps)
  have b2: "CONFIG_RX_TIMESTAMP = (if rd_n s = 0 then lookup_param (req b ! PAYLOAD_IDX) else rd_param s)"
    by (simp add: s_def)
  have b3: "2 = max 1 (unat (len (param_info CONFIG_RX_TIMESTAMP)) - unat (rd_n s))"
    by (simp add: s_def param_info_simps)
  have b4: "2 \<le> unat (5 :: u8)" by simp
  note t2 = legacy_config_read_completes [OF b1 b2 b3 b4, of "fixed_periph 0x1234"]
  have "resp b ! 6 = 0xEE" "resp b ! 15 = 0xEE"
    by (simp_all add: b_def sample_resp_def)
  then show ?thesis
    using t1 t2 by (simp add: Let_def PAYLOAD_IDX_def b_def [symmetric] s_def [symmetric])
qed

subsection \<open>Multi-frame reads\<close>

lemma count_le_7: "unat ((c :: u8) AND UART_PKT_MODE_CNT_MASK) \<le> 7"
proof -
  have "unat (c AND 7) \<le> unat (7 :: u8)"
    by (rule word_and_le1 [THEN word_le_nat_alt [THEN iffD1]])
  then show ?thesis by (simp add: UART_PKT_MODE_CNT_MASK_def)
qed

lemma lookup_param_timestamp:
  "addr_in_range CONFIG_RX_TIMESTAMP a \<Longrightarrow> lookup_param a = CONFIG_RX_TIMESTAMP"
  "addr_in_range CONFIG_TX_TIMESTAMP a \<Longrightarrow> lookup_param a = CONFIG_TX_TIMESTAMP"
  by (simp_all add: addr_in_range_def param_info_simps lookup_param_unfold)

text \<open>
  C5. Take an 8-byte timestamp parameter (RX or TX), the read path idle, and two CONFIG
  read frames, the first with an address of the parameter in its first tuple and a
  count \<open>c1\<close> of at least 1, the second with a count \<open>c2\<close> such that \<open>c1 + c2\<close>
  reaches 8. A count is at most 7, so one frame never suffices. The first frame calls
  \<open>time_tamer_read\<close> once and delivers the bytes 0 to \<open>c1 - 1\<close> of the value it
  returned, least significant first, one per tuple; the transfer stays open at byte
  index \<open>c1\<close>. The second frame makes no peripheral call, delivers the bytes \<open>c1\<close> to 7
  in its first \<open>8 - c1\<close> tuples, and leaves the read path idle.
\<close>

theorem timestamp_read_two_frames:
  assumes p: "p = CONFIG_RX_TIMESTAMP \<and> m = BLADERF_MODULE_RX \<or>
              p = CONFIG_TX_TIMESTAMP \<and> m = BLADERF_MODULE_TX"
    and addr: "addr_in_range p (req b1 ! PAYLOAD_IDX)"
    and rd1: "req b1 ! PKT_CFG_IDX AND UART_PKT_MODE_DIR_READ \<noteq> 0"
    and cf1: "req b1 ! PKT_CFG_IDX AND UART_PKT_MODE_DEV_MASK = UART_PKT_DEV_CONFIG"
    and rd2: "req b2 ! PKT_CFG_IDX AND UART_PKT_MODE_DIR_READ \<noteq> 0"
    and cf2: "req b2 ! PKT_CFG_IDX AND UART_PKT_MODE_DEV_MASK = UART_PKT_DEV_CONFIG"
    and c1: "c1 = unat (req b1 ! PKT_CFG_IDX AND UART_PKT_MODE_CNT_MASK)"
    and c2: "c2 = unat (req b2 ! PKT_CFG_IDX AND UART_PKT_MODE_CNT_MASK)"
    and pos: "0 < c1" and enough: "8 \<le> c1 + c2"
    and idle: "rd_n s = 0"
    and ok: "pkt_buf_ok b1" "pkt_buf_ok b2"
    and v: "v = dev (trace s) (Time_tamer_read m)"
    and run1: "(s1, r1) = pkt_legacy ws dev s b1"
    and run2: "(s2, r2) = pkt_legacy ws dev s1 b2"
  shows "trace s1 = trace s @ [Time_tamer_read m] \<and>
         rd_n s1 = of_nat c1 \<and> rd_n s1 \<noteq> 0 \<and> rd_param s1 = p \<and> rd_payload s1 = v \<and>
         (\<forall>k<c1. resp r1 ! (PAYLOAD_IDX + 2 * k + 1) = ucast (drop_bit (k * 8) v)) \<and>
         trace s2 = trace s1 \<and>
         (\<forall>k<8 - c1. resp r2 ! (PAYLOAD_IDX + 2 * k + 1) = ucast (drop_bit ((c1 + k) * 8) v)) \<and>
         rd_n s2 = 0 \<and> rd_param s2 = CONFIG_UNKNOWN \<and> rd_payload s2 = 0"
proof -
  have c1le: "c1 \<le> 7" and c2le: "c2 \<le> 7" using c1 c2 count_le_7 by simp_all
  have lk: "lookup_param (req b1 ! PAYLOAD_IDX) = p"
    using p addr lookup_param_timestamp by auto
  have L: "unat (len (param_info p)) = 8"
    using p by (auto simp add: param_info_simps)
  have rdp: "perform_config_read dev p (trace s) = (v, trace s @ [Time_tamer_read m])"
    using p v by (auto simp add: periph_read_def)
  have e1: "pkt_legacy ws dev s b1 = legacy_config_read_loop dev 0 c1 s b1"
    using rd1 cf1 c1 by (simp add: pkt_legacy_config_read legacy_config_read_def)
  have e2: "pkt_legacy ws dev s1 b2 = legacy_config_read_loop dev 0 c2 s1 b2"
    using rd2 cf2 c2 by (simp add: pkt_legacy_config_read legacy_config_read_def)
  have s1: "s1 = s\<lparr> rd_param := p, rd_payload := v, trace := trace s @ [Time_tamer_read m],
                     rd_n := of_nat c1 \<rparr>"
    using read_loop_fresh_state [OF pos idle lk [symmetric], of dev] run1 [symmetric] c1le
    by (simp add: e1 L rdp)
  have n1: "unat (rd_n s1) = c1"
    using c1le by (simp add: s1 unat_of_nat)
  have len1: "length (resp b1) = 16" and len2: "length (resp b2) = 16"
    using ok by (simp_all add: pkt_buf_ok_def PKT_BUF_LEN_def)
  have t1: "resp r1 ! (PAYLOAD_IDX + 2 * k + 1) = ucast (drop_bit (k * 8) v)" if "k < c1" for k
  proof -
    have a: "k < min (c1 - 0) (max 1 (unat (len (param_info p))))"
      using that c1le by (simp add: L)
    have b: "PAYLOAD_IDX + 2 * (0 + k) + 1 < length (resp b1)"
      using that c1le by (simp add: len1 PAYLOAD_IDX_def)
    from read_loop_fresh_tuple [OF pos idle lk [symmetric] a b, of dev] run1 [symmetric]
    show ?thesis by (simp add: e1 rdp)
  qed
  have act: "0 < unat (rd_n s1)" "unat (rd_n s1) < unat (len (param_info (rd_param s1)))"
    using n1 pos c1le by (simp_all add: s1 L)
  have L1: "unat (len (param_info (rd_param s1))) = 8"
    by (simp add: s1 L)
  have "fst (legacy_config_read_loop dev 0 c2 s1 b2) =
          s1\<lparr> rd_param := CONFIG_UNKNOWN, rd_n := 0, rd_payload := 0 \<rparr>"
    using read_loop_active_state [OF act refl, where dev = dev and count = c2 and i = 0 and b = b2]
      enough n1 L1
    by simp
  moreover have "fst (legacy_config_read_loop dev 0 c2 s1 b2) = s2"
    using run2 [symmetric] by (simp add: e2)
  ultimately have s2: "s2 = s1\<lparr> rd_param := CONFIG_UNKNOWN, rd_n := 0, rd_payload := 0 \<rparr>"
    by simp
  have t2: "resp r2 ! (PAYLOAD_IDX + 2 * k + 1) = ucast (drop_bit ((c1 + k) * 8) v)"
    if "k < 8 - c1" for k
  proof -
    have a: "k < min (c2 - 0) (unat (len (param_info (rd_param s1))) - unat (rd_n s1))"
      using that enough n1 L1 by simp
    have b: "PAYLOAD_IDX + 2 * (0 + k) + 1 < length (resp b2)"
      using that pos by (simp add: len2 PAYLOAD_IDX_def)
    have "snd (legacy_config_read_loop dev 0 c2 s1 b2) = r2"
      using run2 [symmetric] by (simp add: e2)
    moreover have "rd_payload s1 = v" by (simp add: s1)
    ultimately show ?thesis
      using read_loop_active_tuple [OF act refl a b, of dev] n1 by simp
  qed
  have nz: "rd_n s1 \<noteq> 0" using act(1) by (simp add: unat_gt_0)
  show ?thesis
    using t1 t2 nz by (simp add: s1 s2)
qed

text \<open>
  The RX timestamp \<open>0x0807060504030201\<close> read at firmware start by a frame of seven
  tuples and a frame of three.
\<close>

theorem timestamp_read_two_frames_witness:
  "(let dev = fixed_periph 0x0807060504030201;
        b1 = \<lparr> req = [0x87, 0, 16, 0, 17, 0, 18, 0, 19, 0, 20, 0, 21, 0, 22, 0], resp = sample_resp \<rparr>;
        b2 = \<lparr> req = [0x83, 0, 23, 0, 24, 0, 25, 0, 0, 0, 0, 0, 0, 0, 0, 0], resp = sample_resp \<rparr>;
        s1 = fst (pkt_legacy shift_mod32 dev fw_init b1); r1 = snd (pkt_legacy shift_mod32 dev fw_init b1);
        s2 = fst (pkt_legacy shift_mod32 dev s1 b2); r2 = snd (pkt_legacy shift_mod32 dev s1 b2)
    in trace s1 = [Time_tamer_read BLADERF_MODULE_RX] \<and> rd_n s1 = 7 \<and>
       resp r1 ! 3 = 0x01 \<and> resp r1 ! 9 = 0x04 \<and> resp r1 ! 15 = 0x07 \<and>
       trace s2 = [Time_tamer_read BLADERF_MODULE_RX] \<and> resp r2 ! 3 = 0x08 \<and>
       rd_n s2 = 0 \<and> rd_param s2 = CONFIG_UNKNOWN \<and> rd_payload s2 = 0)"
proof -
  define dev where "dev = fixed_periph 0x0807060504030201"
  define b1 where "b1 = \<lparr> req = [0x87, 0, 16, 0, 17, 0, 18, 0, 19, 0, 20, 0, 21, 0, 22, 0 :: u8], resp = sample_resp \<rparr>"
  define b2 where "b2 = \<lparr> req = [0x83, 0, 23, 0, 24, 0, 25, 0, 0, 0, 0, 0, 0, 0, 0, 0 :: u8], resp = sample_resp \<rparr>"
  define s1 where "s1 = fst (pkt_legacy shift_mod32 dev fw_init b1)"
  define r1 where "r1 = snd (pkt_legacy shift_mod32 dev fw_init b1)"
  define s2 where "s2 = fst (pkt_legacy shift_mod32 dev s1 b2)"
  define r2 where "r2 = snd (pkt_legacy shift_mod32 dev s1 b2)"
  have h1: "CONFIG_RX_TIMESTAMP = CONFIG_RX_TIMESTAMP \<and> BLADERF_MODULE_RX = BLADERF_MODULE_RX \<or>
            CONFIG_RX_TIMESTAMP = CONFIG_TX_TIMESTAMP \<and> BLADERF_MODULE_RX = BLADERF_MODULE_TX"
    by simp
  have h2: "addr_in_range CONFIG_RX_TIMESTAMP (req b1 ! PAYLOAD_IDX)"
    by (simp add: b1_def PAYLOAD_IDX_def addr_in_range_def param_info_simps)
  have h3: "req b1 ! PKT_CFG_IDX AND UART_PKT_MODE_DIR_READ \<noteq> 0"
    and h4: "req b1 ! PKT_CFG_IDX AND UART_PKT_MODE_DEV_MASK = UART_PKT_DEV_CONFIG"
    and h5: "req b2 ! PKT_CFG_IDX AND UART_PKT_MODE_DIR_READ \<noteq> 0"
    and h6: "req b2 ! PKT_CFG_IDX AND UART_PKT_MODE_DEV_MASK = UART_PKT_DEV_CONFIG"
    and h7: "7 = unat (req b1 ! PKT_CFG_IDX AND UART_PKT_MODE_CNT_MASK)"
    and h8: "3 = unat (req b2 ! PKT_CFG_IDX AND UART_PKT_MODE_CNT_MASK)"
    by (simp_all add: b1_def b2_def PKT_CFG_IDX_def uart_consts UART_PKT_MODE_DEV_MASK_def
        UART_PKT_MODE_CNT_MASK_def)
  have h9: "rd_n fw_init = 0" by (simp add: fw_init_def)
  have h10: "pkt_buf_ok b1" and h11: "pkt_buf_ok b2"
    by (simp_all add: b1_def b2_def pkt_buf_ok_def PKT_BUF_LEN_def sample_resp_def)
  have h12: "0x0807060504030201 = dev (trace fw_init) (Time_tamer_read BLADERF_MODULE_RX)"
    by (simp add: dev_def fixed_periph_def)
  have h13: "(s1, r1) = pkt_legacy shift_mod32 dev fw_init b1" and h14: "(s2, r2) = pkt_legacy shift_mod32 dev s1 b2"
    by (simp_all add: s1_def r1_def s2_def r2_def)
  have "(0::nat) < 7" and "(8::nat) \<le> 7 + 3" by simp_all
  note th = timestamp_read_two_frames [OF h1 h2 h3 h4 h5 h6 h7 h8 this h9 h10 h11 h12 h13 h14]
  have "trace s1 = [Time_tamer_read BLADERF_MODULE_RX]" "rd_n s1 = 7" "trace s2 = trace s1"
    "rd_n s2 = 0" "rd_param s2 = CONFIG_UNKNOWN" "rd_payload s2 = 0"
    using th by (simp_all add: fw_init_def)
  moreover have "resp r1 ! 3 = 0x01" "resp r1 ! 9 = 0x04" "resp r1 ! 15 = 0x07"
    using th [THEN conjunct2, THEN conjunct2, THEN conjunct2, THEN conjunct2, THEN conjunct2,
        THEN conjunct1, rule_format, of 0]
      th [THEN conjunct2, THEN conjunct2, THEN conjunct2, THEN conjunct2, THEN conjunct2,
        THEN conjunct1, rule_format, of 3]
      th [THEN conjunct2, THEN conjunct2, THEN conjunct2, THEN conjunct2, THEN conjunct2,
        THEN conjunct1, rule_format, of 6]
    by (simp_all add: PAYLOAD_IDX_def)
  moreover have "resp r2 ! 3 = 0x08"
    using th [THEN conjunct2, THEN conjunct2, THEN conjunct2, THEN conjunct2, THEN conjunct2,
        THEN conjunct2, THEN conjunct2, THEN conjunct1, rule_format, of 0]
    by (simp add: PAYLOAD_IDX_def)
  ultimately show ?thesis
    by (simp add: Let_def dev_def b1_def b2_def s1_def r1_def s2_def r2_def)
qed

lemma write_loop_step:
  assumes "i < count" "unat (wr_n s) < unat (len (param_info (wr_param s)))"
  shows "legacy_config_write_loop ws i count s b =
     legacy_config_write_loop ws (i + 1) count
       (s\<lparr> wr_payload := wr_payload s OR shifted_data ws (req b ! (PAYLOAD_IDX + 2 * i + 1)) (wr_n s),
           wr_n := wr_n s + 1 \<rparr>)
       (b\<lparr> resp := (resp b)[PAYLOAD_IDX + 2 * i :=
                   req b ! (PAYLOAD_IDX + 2 * i) - start (param_info (wr_param s)),
                 PAYLOAD_IDX + 2 * i + 1 := 0] \<rparr>)"
  using assms
  by (subst legacy_config_write_loop.simps) (simp add: Let_def word_less_nat_alt)

lemma write_loop_other_state:
  "wr_param (fst (legacy_config_write_loop ws i count s b)) = wr_param s \<and>
   rd_n (fst (legacy_config_write_loop ws i count s b)) = rd_n s \<and>
   rd_payload (fst (legacy_config_write_loop ws i count s b)) = rd_payload s \<and>
   rd_param (fst (legacy_config_write_loop ws i count s b)) = rd_param s \<and>
   trace (fst (legacy_config_write_loop ws i count s b)) = trace s"
proof (induction ws i count s b rule: legacy_config_write_loop.induct)
  case (1 ws i count s b)
  show ?case
    apply (subst (1 2 3 4 5) legacy_config_write_loop.simps)
    using "1.IH"
    apply (simp add: Let_def)
    done
qed

lemma min_tuples_write:
  "i < count \<Longrightarrow> n < L \<Longrightarrow>
   n + 1 + min (count - (i + 1)) (L - (n + 1)) = n + min (count - i) (L - (n::nat))"
  by arith

lemma write_loop_n:
  "unat (wr_n s) \<le> unat (len (param_info (wr_param s))) \<Longrightarrow> k = count - i \<Longrightarrow>
   unat (wr_n (fst (legacy_config_write_loop ws i count s b))) =
     unat (wr_n s) + min (count - i) (unat (len (param_info (wr_param s))) - unat (wr_n s))"
proof (induction k arbitrary: i s b)
  case 0
  then show ?case by (simp add: write_loop_stop)
next
  case (Suc k)
  then have lt: "i < count" and k: "k = count - (i + 1)" by simp_all
  show ?case
  proof (cases "unat (wr_n s) < unat (len (param_info (wr_param s)))")
    case False
    then have "len (param_info (wr_param s)) \<le> wr_n s" by (simp add: word_le_nat_alt)
    then show ?thesis using False Suc.prems(1) by (simp add: write_loop_stop)
  next
    case True
    let ?s2 = "s\<lparr> wr_payload := wr_payload s OR shifted_data ws (req b ! (PAYLOAD_IDX + 2 * i + 1)) (wr_n s),
           wr_n := wr_n s + 1 \<rparr>"
    let ?b2 = "b\<lparr> resp := (resp b)[PAYLOAD_IDX + 2 * i :=
                   req b ! (PAYLOAD_IDX + 2 * i) - start (param_info (wr_param s)),
                 PAYLOAD_IDX + 2 * i + 1 := 0] \<rparr>"
    have su: "unat (wr_n s + 1) = unat (wr_n s) + 1" using True by (rule u8_succ_unat)
    have a: "unat (wr_n ?s2) \<le> unat (len (param_info (wr_param ?s2)))"
      using True su by simp
    have "unat (wr_n (fst (legacy_config_write_loop ws i count s b))) =
          unat (wr_n (fst (legacy_config_write_loop ws (i + 1) count ?s2 ?b2)))"
      by (simp add: write_loop_step [OF lt True])
    also have "\<dots> = unat (wr_n ?s2) + min (count - (i + 1))
                         (unat (len (param_info (wr_param ?s2))) - unat (wr_n ?s2))"
      by (rule Suc.IH [OF a k])
    also have "\<dots> = unat (wr_n s) + min (count - i) (unat (len (param_info (wr_param s))) - unat (wr_n s))"
      using su min_tuples_write [OF lt True] by simp
    finally show ?thesis .
  qed
qed

subsection \<open>Transfers in flight\<close>

lemma legacy_config_read_ok:
  assumes "rd_state_ok s"
  shows "rd_state_ok (fst (legacy_config_read dev count s b))"
proof (cases "unat count = 0")
  case True
  then show ?thesis using assms by (simp add: legacy_config_read_def read_loop_stop)
next
  case False
  then have pos: "0 < unat count" by simp
  have lt: "unat count < 256" using unsigned_less [of count] by simp
  show ?thesis
  proof (cases "rd_n s = 0")
    case True
    let ?p = "lookup_param (req b ! PAYLOAD_IDX)"
    note st = read_loop_fresh_state [OF pos True refl, of dev]
    show ?thesis
    proof (cases "max 1 (unat (len (param_info ?p))) \<le> unat count - 0")
      case True
      then show ?thesis using st \<open>rd_n s = 0\<close>
        by (simp add: legacy_config_read_def rd_state_ok_def)
    next
      case False
      then have "unat count < unat (len (param_info ?p))" using pos by simp
      moreover have "unat (of_nat (unat count) :: u8) = unat count" by simp
      ultimately show ?thesis using st False pos
        by (simp add: legacy_config_read_def rd_state_ok_def)
    qed
  next
    case False
    then have act: "0 < unat (rd_n s)" "unat (rd_n s) < unat (len (param_info (rd_param s)))"
      using assms by (simp_all add: rd_state_ok_def unat_gt_0)
    note st = read_loop_active_state [OF act refl, where dev = dev and count = "unat count" and i = 0 and b = b]
    show ?thesis
    proof (cases "unat (len (param_info (rd_param s))) - unat (rd_n s) \<le> unat count - 0")
      case True
      then show ?thesis using st by (simp add: legacy_config_read_def rd_state_ok_def)
    next
      case False
      then have sm: "unat (rd_n s) + unat count < unat (len (param_info (rd_param s)))" by simp
      moreover have "unat (len (param_info (rd_param s))) < 256"
        using unsigned_less [of "len (param_info (rd_param s))"] by simp
      ultimately have "unat (rd_n s + count) = unat (rd_n s) + unat count"
        by (simp add: unat_word_ariths)
      then show ?thesis using st False sm act
        by (simp add: legacy_config_read_def rd_state_ok_def)
    qed
  qed
qed

lemma legacy_config_write_ok:
  assumes "wr_state_ok s"
  shows "wr_state_ok (fst (legacy_config_write ws count s b))"
proof -
  define s0 where "s0 = (if wr_n s = 0 then s\<lparr> wr_param := lookup_param (req b ! PAYLOAD_IDX) \<rparr> else s)"
  define s1 where "s1 = fst (legacy_config_write_loop ws 0 (unat count) s0 b)"
  have le0: "unat (wr_n s0) \<le> unat (len (param_info (wr_param s0)))"
    using assms by (auto simp add: s0_def wr_state_ok_def)
  have ok0: "wr_state_ok s0 \<or> wr_n s0 = 0 \<and> wr_payload s0 = 0"
    using assms by (auto simp add: s0_def wr_state_ok_def)
  have p1: "wr_param s1 = wr_param s0"
    by (simp add: s1_def write_loop_other_state)
  have n1: "unat (wr_n s1) = unat (wr_n s0) +
              min (unat count - 0) (unat (len (param_info (wr_param s0))) - unat (wr_n s0))"
    unfolding s1_def by (rule write_loop_n [OF le0 refl])
  have res: "fst (legacy_config_write ws count s b) =
      (if wr_n s1 \<ge> len (param_info (wr_param s1))
       then s1\<lparr> trace := perform_config_write (wr_param s1) (wr_payload s1) (trace s1),
                wr_payload := 0, wr_n := 0 \<rparr>
       else s1)"
    by (simp add: legacy_config_write_def Let_def s0_def s1_def split: prod.splits)
  show ?thesis
  proof (cases "wr_n s1 \<ge> len (param_info (wr_param s1))")
    case True
    then show ?thesis by (simp add: res wr_state_ok_def)
  next
    case False
    then have lt1: "unat (wr_n s1) < unat (len (param_info (wr_param s0)))"
      by (simp add: word_le_nat_alt p1)
    show ?thesis
    proof (cases "unat (wr_n s1) = 0")
      case True
      then have "unat (wr_n s0) = 0" and "unat count = 0 \<or> unat (len (param_info (wr_param s0))) = 0"
        using n1 by (auto simp add: min_def split: if_splits)
      then have "unat count \<le> 0 \<or> len (param_info (wr_param s0)) \<le> wr_n s0"
        by (auto simp add: word_le_nat_alt)
      then have "s1 = s0" unfolding s1_def by (simp add: write_loop_stop)
      moreover have "wr_n s0 = 0" using \<open>unat (wr_n s0) = 0\<close> by (simp add: unat_eq_0)
      ultimately show ?thesis using False ok0 by (auto simp add: res wr_state_ok_def)
    next
      case nz: False
      then show ?thesis using False lt1 by (simp add: res wr_state_ok_def p1)
    qed
  qed
qed

lemma legacy_config_write_read_state:
  "rd_n (fst (legacy_config_write ws count s b)) = rd_n s \<and>
   rd_payload (fst (legacy_config_write ws count s b)) = rd_payload s \<and>
   rd_param (fst (legacy_config_write ws count s b)) = rd_param s"
proof -
  define s0 where "s0 = (if wr_n s = 0 then s\<lparr> wr_param := lookup_param (req b ! PAYLOAD_IDX) \<rparr> else s)"
  define s1 where "s1 = fst (legacy_config_write_loop ws 0 (unat count) s0 b)"
  have res: "fst (legacy_config_write ws count s b) =
      (if wr_n s1 \<ge> len (param_info (wr_param s1))
       then s1\<lparr> trace := perform_config_write (wr_param s1) (wr_payload s1) (trace s1),
                wr_payload := 0, wr_n := 0 \<rparr>
       else s1)"
    by (simp add: legacy_config_write_def Let_def s0_def s1_def split: prod.splits)
  have "rd_n s1 = rd_n s0" "rd_payload s1 = rd_payload s0" "rd_param s1 = rd_param s0"
    by (simp_all add: s1_def write_loop_other_state)
  moreover have "rd_n s0 = rd_n s" "rd_payload s0 = rd_payload s" "rd_param s0 = rd_param s"
    by (simp_all add: s0_def)
  ultimately show ?thesis by (simp add: res)
qed

lemma legacy_config_read_write_state:
  "wr_n (fst (legacy_config_read dev count s b)) = wr_n s \<and>
   wr_payload (fst (legacy_config_read dev count s b)) = wr_payload s \<and>
   wr_param (fst (legacy_config_read dev count s b)) = wr_param s"
  by (simp add: legacy_config_read_def read_loop_write_state)

lemma pkt_legacy_ok:
  assumes "rd_state_ok s" "wr_state_ok s"
  shows "rd_state_ok (fst (pkt_legacy ws dev s b)) \<and> wr_state_ok (fst (pkt_legacy ws dev s b))"
proof -
  have r: "rd_state_ok (fst (legacy_config_read dev c s b)) \<and>
           wr_state_ok (fst (legacy_config_read dev c s b))" for c
    using assms legacy_config_read_ok [of s dev c b] legacy_config_read_write_state [of dev c s b]
    by (simp add: wr_state_ok_def)
  have w: "rd_state_ok (fst (legacy_config_write ws c s b)) \<and>
           wr_state_ok (fst (legacy_config_write ws c s b))" for c
    using assms legacy_config_write_ok [where s = s and ws = ws and count = c and b = b]
      legacy_config_write_read_state [where ws = ws and count = c and s = s and b = b]
    by (simp add: rd_state_ok_def)
  have t: "rd_state_ok (s\<lparr> trace := tr \<rparr>) \<and> wr_state_ok (s\<lparr> trace := tr \<rparr>)" for tr
    using assms by (simp add: rd_state_ok_def wr_state_ok_def)
  show ?thesis
    using assms r w t
    by (simp add: pkt_legacy_def legacy_pkt_read_def legacy_pkt_write_def periph_read_def Let_def)
qed

lemma run_frames_ok:
  "rd_state_ok s \<Longrightarrow> wr_state_ok s \<Longrightarrow>
   rd_state_ok (run_frames ws dev s bs) \<and> wr_state_ok (run_frames ws dev s bs)"
proof (induction bs arbitrary: s)
  case Nil
  then show ?case by simp
next
  case (Cons b bs)
  from pkt_legacy_ok [OF Cons.prems, where ws = ws and dev = dev and b = b]
  show ?case by (simp add: Cons.IH)
qed

text \<open>
  C4, amended. The read path and the write path each keep a Transfer State of their
  own, and in every state reachable from firmware start, by any frames, with any
  peripherals and any behaviour of the wide shifts, each path is idle or inside the transfer of a single parameter, with at
  least one and fewer than \<open>len\<close> of its bytes consumed: there is at most one read
  transfer and at most one write transfer in flight.
\<close>

theorem transfer_state_per_path:
  "rd_state_ok (run_frames ws dev fw_init bs) \<and> wr_state_ok (run_frames ws dev fw_init bs)"
proof -
  have "rd_state_ok fw_init" "wr_state_ok fw_init"
    by (simp_all add: rd_state_ok_def wr_state_ok_def fw_init_def)
  then show ?thesis by (rule run_frames_ok)
qed

text \<open>
  A read frame with one tuple for the control register (four bytes), then a write frame
  with one tuple for it: after both, one byte of a read transfer and one byte of a write
  transfer have been consumed, and both transfers are open.
\<close>

theorem read_and_write_in_flight_counterexample:
  "(let s = run_frames shift_mod32 (fixed_periph 0x0807060504030201) fw_init
        [\<lparr> req = [0x81, 0, 0, 0, 0, 0, 0, 0, 0, 0, 0, 0, 0, 0, 0, 0], resp = sample_resp \<rparr>,
         \<lparr> req = [0x41, 0, 0, 0x11, 0, 0, 0, 0, 0, 0, 0, 0, 0, 0, 0, 0], resp = sample_resp \<rparr>]
    in rd_param s = CONFIG_CONTROL_REG \<and> rd_n s = 1 \<and>
       wr_param s = CONFIG_CONTROL_REG \<and> wr_n s = 1 \<and>
       len (param_info CONFIG_CONTROL_REG) = 4)"
  by (simp add: Let_def pkt_legacy_def legacy_pkt_read_def legacy_pkt_write_def
      legacy_config_read_def legacy_config_write_def
      legacy_config_read_loop.simps legacy_config_write_loop.simps
      PKT_CFG_IDX_def PAYLOAD_IDX_def uart_consts UART_PKT_MODE_DEV_MASK_def
      UART_PKT_MODE_CNT_MASK_def lookup_param_unfold param_info_simps
      periph_read_def fixed_periph_def fw_init_def sample_resp_def
      word_le_nat_alt word_less_nat_alt)

subsection \<open>Assembling the written value\<close>

text \<open>
  What the shift of \<open>legacy_config_write\<close> contributes for the data byte \<open>d\<close> at a
  byte index \<open>n\<close> below 4: the byte lands at its place.
\<close>

lemma shifted_data_low:
  "unat n < 4 \<Longrightarrow> (ucast (drop_bit (unat n * 8) (shifted_data ws d n)) :: u8) = d"
  by (rule bit_word_eqI) (auto simp add: shifted_data_def int_shl_def bit_simps)

text \<open>
  Whatever a 32-bit shift leaves in the \<open>int\<close>, its conversion to 64 bits has each of
  the bytes 4 to 7 all zeros or all ones: no data byte can arrive there.
\<close>

lemma int_conversion_high_byte:
  "32 \<le> k \<Longrightarrow> k \<le> 56 \<Longrightarrow>
   (ucast (drop_bit k (scast (x :: u32) :: u64)) :: u8) = (if bit x 31 then 0xFF else 0)"
proof -
  assume k: "32 \<le> k" "k \<le> 56"
  have m1: "(0xFF :: u8) = - 1" by simp
  show ?thesis
    unfolding m1 using k
    by (intro bit_word_eqI) (auto simp add: bit_simps)
qed

lemma scast_or_int: "(scast (x :: u32) :: u64) OR scast y = scast (x OR y)"
  by (rule bit_word_eqI) (auto simp add: bit_simps)

lemma write_loop_payload_int:
  "\<exists>x :: u32. wr_payload s = scast x \<Longrightarrow>
   \<exists>x :: u32. wr_payload (fst (legacy_config_write_loop ws i count s b)) = scast x"
proof (induction ws i count s b rule: legacy_config_write_loop.induct)
  case (1 ws i count s b)
  show ?case
  proof (cases "i < count \<and> wr_n s < len (param_info (wr_param s))")
    case False
    then have "count \<le> i \<or> len (param_info (wr_param s)) \<le> wr_n s"
      by (auto simp add: not_less)
    then show ?thesis using "1.prems"
      by (simp add: write_loop_stop)
  next
    case True
    from "1.prems" obtain x :: u32 where x: "wr_payload s = scast x" by blast
    let ?d = "req b ! (PAYLOAD_IDX + 2 * i + 1)"
    have "wr_payload s OR shifted_data ws ?d (wr_n s) =
          scast (x OR int_shl ws (ucast ?d) (unat (wr_n s) * 8))"
      by (simp add: x shifted_data_def scast_or_int)
    then have "\<exists>y :: u32. wr_payload s OR shifted_data ws ?d (wr_n s) = scast y"
      by blast
    then show ?thesis
      using True "1.IH"
      by (subst legacy_config_write_loop.simps) (simp add: Let_def)
  qed
qed

lemma legacy_config_write_fst:
  "fst (legacy_config_write ws count s b) =
     (let s0 = (if wr_n s = 0 then s\<lparr> wr_param := lookup_param (req b ! PAYLOAD_IDX) \<rparr> else s);
          s1 = fst (legacy_config_write_loop ws 0 (unat count) s0 b)
      in if wr_n s1 \<ge> len (param_info (wr_param s1))
         then s1\<lparr> trace := perform_config_write (wr_param s1) (wr_payload s1) (trace s1),
                  wr_payload := 0, wr_n := 0 \<rparr>
         else s1)"
  by (simp add: legacy_config_write_def Let_def split: prod.splits)

lemma u8_of_unat: "unat (x :: u8) = 7 \<Longrightarrow> x = 7" "unat (x :: u8) = 8 \<Longrightarrow> x = 8"
  by (simp_all add: word_unat_eq_iff)

text \<open>
  C2, at a failing input. At firmware start, the eight bytes \<open>0x11, 0x22, \<dots>, 0x88\<close>
  are written to the RX timestamp (addresses 16 to 23) by a frame of seven tuples and a
  frame of one. After the first frame seven bytes are consumed and no peripheral has
  been called. When the loop of the second frame ends, \<open>n\<close> has reached the length 8
  and \<open>perform_config_write\<close> is called, once, with the \<open>payload\<close> of that moment.
  Whatever the wide shifts yield, each of the bytes 4 to 7 of that value is \<open>0x00\<close>
  or \<open>0xFF\<close>: none of them is the data byte received for it (\<open>0x55\<close>, \<open>0x66\<close>,
  \<open>0x77\<close>, \<open>0x88\<close>), and the value is not \<open>0x8877665544332211\<close>.
\<close>

theorem timestamp_write_payload_truncated:
  "(let b1 = \<lparr> req = [0x47, 0, 16, 0x11, 17, 0x22, 18, 0x33, 19, 0x44, 20, 0x55, 21, 0x66, 22, 0x77],
                 resp = sample_resp \<rparr>;
        b2 = \<lparr> req = [0x41, 0, 23, 0x88, 0, 0, 0, 0, 0, 0, 0, 0, 0, 0, 0, 0], resp = sample_resp \<rparr>;
        s1 = fst (pkt_legacy ws dev fw_init b1);
        s2 = fst (legacy_config_write_loop ws 0 1 s1 b2);
        v = wr_payload s2
    in wr_param s1 = CONFIG_RX_TIMESTAMP \<and> wr_n s1 = 7 \<and> trace s1 = [] \<and>
       wr_param s2 = CONFIG_RX_TIMESTAMP \<and> wr_n s2 = 8 \<and>
       fst (pkt_legacy ws dev s1 b2) =
         s2\<lparr> trace := perform_config_write CONFIG_RX_TIMESTAMP v [],
             wr_payload := 0, wr_n := 0 \<rparr> \<and>
       (ucast (drop_bit 32 v) :: u8) \<in> {0x00, 0xFF} \<and>
       (ucast (drop_bit 40 v) :: u8) \<in> {0x00, 0xFF} \<and>
       (ucast (drop_bit 48 v) :: u8) \<in> {0x00, 0xFF} \<and>
       (ucast (drop_bit 56 v) :: u8) \<in> {0x00, 0xFF} \<and>
       (ucast (drop_bit 32 v) :: u8) \<noteq> 0x55 \<and>
       (ucast (drop_bit 40 v) :: u8) \<noteq> 0x66 \<and>
       (ucast (drop_bit 48 v) :: u8) \<noteq> 0x77 \<and>
       (ucast (drop_bit 56 v) :: u8) \<noteq> 0x88 \<and>
       v \<noteq> 0x8877665544332211)"
proof -
  define b1 where "b1 = \<lparr> req = [0x47, 0, 16, 0x11, 17, 0x22, 18, 0x33, 19, 0x44, 20, 0x55, 21, 0x66, 22, 0x77 :: u8],
                 resp = sample_resp \<rparr>"
  define b2 where "b2 = \<lparr> req = [0x41, 0, 23, 0x88, 0, 0, 0, 0, 0, 0, 0, 0, 0, 0, 0, 0 :: u8], resp = sample_resp \<rparr>"
  define s0 where "s0 = fw_init\<lparr> wr_param := CONFIG_RX_TIMESTAMP \<rparr>"
  define s1 where "s1 = fst (legacy_config_write_loop ws 0 7 s0 b1)"
  define s2 where "s2 = fst (legacy_config_write_loop ws 0 1 s1 b2)"
  define v where "v = wr_payload s2"
  have cfg1: "req b1 ! PKT_CFG_IDX AND UART_PKT_MODE_DIR_READ = 0"
    "req b1 ! PKT_CFG_IDX AND UART_PKT_MODE_DIR_WRITE \<noteq> 0"
    "req b1 ! PKT_CFG_IDX AND UART_PKT_MODE_DEV_MASK = UART_PKT_DEV_CONFIG"
    "req b1 ! PKT_CFG_IDX AND UART_PKT_MODE_CNT_MASK = 7"
    and cfg2: "req b2 ! PKT_CFG_IDX AND UART_PKT_MODE_DIR_READ = 0"
    "req b2 ! PKT_CFG_IDX AND UART_PKT_MODE_DIR_WRITE \<noteq> 0"
    "req b2 ! PKT_CFG_IDX AND UART_PKT_MODE_DEV_MASK = UART_PKT_DEV_CONFIG"
    "req b2 ! PKT_CFG_IDX AND UART_PKT_MODE_CNT_MASK = 1"
    by (simp_all add: b1_def b2_def PKT_CFG_IDX_def uart_consts UART_PKT_MODE_DEV_MASK_def
        UART_PKT_MODE_CNT_MASK_def)
  have lk: "lookup_param (req b1 ! PAYLOAD_IDX) = CONFIG_RX_TIMESTAMP"
    by (simp add: b1_def PAYLOAD_IDX_def lookup_param_unfold)
  \<comment> \<open>the first frame\<close>
  have p0: "wr_param s0 = CONFIG_RX_TIMESTAMP" "wr_n s0 = 0" "trace s0 = []" "wr_payload s0 = 0"
    by (simp_all add: s0_def fw_init_def)
  have le0: "unat (wr_n s0) \<le> unat (len (param_info (wr_param s0)))"
    by (simp add: p0 param_info_simps)
  have p1: "wr_param s1 = CONFIG_RX_TIMESTAMP" and t1: "trace s1 = []"
    by (simp_all add: s1_def write_loop_other_state p0)
  have "unat (wr_n s1) = 7"
    using write_loop_n [OF le0 refl, where ws = ws and count = 7 and i = 0 and b = b1]
    by (simp add: s1_def p0 param_info_simps)
  then have n1: "wr_n s1 = 7" by (rule u8_of_unat)
  have "\<exists>x :: u32. wr_payload s0 = scast x"
    by (rule exI [of _ 0]) (simp add: p0)
  then have i1: "\<exists>x :: u32. wr_payload s1 = scast x"
    unfolding s1_def by (rule write_loop_payload_int)
  have "fst (pkt_legacy ws dev fw_init b1) = fst (legacy_config_write ws 7 fw_init b1)"
    using cfg1 by (simp add: pkt_legacy_config_write)
  also have "(if wr_n fw_init = 0
               then fw_init\<lparr> wr_param := lookup_param (req b1 ! PAYLOAD_IDX) \<rparr> else fw_init) = s0"
    by (simp add: lk s0_def fw_init_def)
  then have "fst (legacy_config_write ws 7 fw_init b1) = s1"
    using n1 p1 by (simp add: legacy_config_write_fst Let_def s1_def [symmetric] param_info_simps)
  finally have f1: "fst (pkt_legacy ws dev fw_init b1) = s1" .
  \<comment> \<open>the second frame\<close>
  have le1: "unat (wr_n s1) \<le> unat (len (param_info (wr_param s1)))"
    by (simp add: n1 p1 param_info_simps)
  have p2: "wr_param s2 = CONFIG_RX_TIMESTAMP" and t2: "trace s2 = []"
    by (simp_all add: s2_def write_loop_other_state p1 t1)
  have "unat (wr_n s2) = 8"
    using write_loop_n [OF le1 refl, where ws = ws and count = 1 and i = 0 and b = b2]
    by (simp add: s2_def n1 p1 param_info_simps)
  then have n2: "wr_n s2 = 8" by (rule u8_of_unat)
  from i1 have "\<exists>x :: u32. wr_payload s2 = scast x"
    unfolding s2_def by (rule write_loop_payload_int)
  then obtain x :: u32 where x: "v = scast x" unfolding v_def by blast
  have "fst (pkt_legacy ws dev s1 b2) = fst (legacy_config_write ws 1 s1 b2)"
    using cfg2 by (simp add: pkt_legacy_config_write)
  then have e2: "fst (pkt_legacy ws dev s1 b2) = fst (legacy_config_write ws 1 s1 b2)" by simp
  have "(if wr_n s1 = 0
               then s1\<lparr> wr_param := lookup_param (req b2 ! PAYLOAD_IDX) \<rparr> else s1) = s1"
    by (simp add: n1)
  moreover have l2: "fst (legacy_config_write_loop ws 0 (Suc 0) s1 b2) = s2"
    by (simp add: s2_def)
  ultimately have "fst (legacy_config_write ws 1 s1 b2) =
      s2\<lparr> trace := perform_config_write CONFIG_RX_TIMESTAMP v [], wr_payload := 0, wr_n := 0 \<rparr>"
    using n2 p2 t2
    by (simp add: legacy_config_write_fst Let_def v_def param_info_simps)
  then have f2: "fst (pkt_legacy ws dev s1 b2) =
      s2\<lparr> trace := perform_config_write CONFIG_RX_TIMESTAMP v [], wr_payload := 0, wr_n := 0 \<rparr>"
    by (simp add: e2)
  have hi: "(ucast (drop_bit 32 v) :: u8) = (if bit x 31 then 0xFF else 0)"
    "(ucast (drop_bit 40 v) :: u8) = (if bit x 31 then 0xFF else 0)"
    "(ucast (drop_bit 48 v) :: u8) = (if bit x 31 then 0xFF else 0)"
    "(ucast (drop_bit 56 v) :: u8) = (if bit x 31 then 0xFF else 0)"
    unfolding x by (simp_all add: int_conversion_high_byte)
  have ne: "v \<noteq> 0x8877665544332211"
  proof
    assume "v = 0x8877665544332211"
    then have "(ucast (drop_bit 32 v) :: u8) = 0x55" by simp
    then show False using hi(1) by (simp split: if_splits)
  qed
  have vl: "wr_payload s2 = v" by (simp add: v_def)
  show ?thesis
    using p1 n1 t1 p2 n2 f2 ne
    by (simp add: Let_def b1_def [symmetric] b2_def [symmetric] f1 l2 vl hi)
qed

text \<open>
  The same run with wide shifts that use the count modulo 32: the bytes 4 to 7 fall
  onto the bytes 0 to 3, and the last one sets the sign.
\<close>

lemma timestamp_write_payload_mod32:
  "(let b1 = \<lparr> req = [0x47, 0, 16, 0x11, 17, 0x22, 18, 0x33, 19, 0x44, 20, 0x55, 21, 0x66, 22, 0x77],
                 resp = sample_resp \<rparr>;
        b2 = \<lparr> req = [0x41, 0, 23, 0x88, 0, 0, 0, 0, 0, 0, 0, 0, 0, 0, 0, 0], resp = sample_resp \<rparr>;
        s1 = fst (pkt_legacy shift_mod32 (fixed_periph 0) fw_init b1);
        s2 = fst (legacy_config_write_loop shift_mod32 0 1 s1 b2)
    in wr_payload s1 = 0x44776655 \<and> wr_payload s2 = 0xFFFFFFFFCC776655)"
  by code_simp

text \<open>
  With four bytes the value is assembled, but a last byte of \<open>0x80\<close> or more makes the
  32-bit intermediate negative, and its conversion fills the upper half of \<open>payload\<close>
  with ones: here the expansion port is written with \<open>0xFFFFFFFF84332211\<close>.
\<close>

lemma expansion_write_sign_extended:
  "trace (fst (pkt_legacy shift_mod32 (fixed_periph 0) fw_init
     \<lparr> req = [0x44, 0, 40, 0x11, 41, 0x22, 42, 0x33, 43, 0x84, 0, 0, 0, 0, 0, 0],
       resp = sample_resp \<rparr>)) = [Expansion_port_write 0xFFFFFFFF84332211]"
  by code_simp

end
